theory Spec2Isabelle
  imports Main "HOL-Library.Multiset" "HOL-Library.Monad_Syntax"
begin

section \<open>Strings and numbers as the JavaScript source uses them\<close>

text \<open>
  \<open>Number.prototype.toString\<close> on a non-negative integer below \<open>10^21\<close> is its decimal
  numeral. Front-matter dates are such integers (\<open>YYYYMMDD\<close>).
\<close>

definition digitChar :: "nat \<Rightarrow> char" where
  "digitChar n = ''0123456789'' ! n"

fun toString :: "nat \<Rightarrow> string" where
  "toString n = (if n < 10 then [digitChar n] else toString (n div 10) @ [digitChar (n mod 10)])"

declare toString.simps [simp del]

definition isDigit :: "char \<Rightarrow> bool" where
  "isDigit c = (c \<in> set ''0123456789'')"

text \<open>The value of a digit is its position among the ten digits.\<close>

definition digitVal :: "char \<Rightarrow> nat" where
  "digitVal c = length (takeWhile (\<lambda>d. d \<noteq> c) ''0123456789'')"

text \<open>
  \<open>parseInt\<close> reads the longest prefix of decimal digits; \<open>None\<close> is \<open>NaN\<close> (no digit at the
  start). The source applies it to a slice of a decimal numeral only, so sign, white space and
  radix prefixes do not occur.
\<close>

fun parseDigits :: "nat \<Rightarrow> string \<Rightarrow> nat" where
  "parseDigits acc [] = acc"
| "parseDigits acc (c # cs) = (if isDigit c then parseDigits (acc * 10 + digitVal c) cs else acc)"

definition parseInt :: "string \<Rightarrow> nat option" where
  "parseInt s = (case s of [] \<Rightarrow> None
                 | c # cs \<Rightarrow> if isDigit c then Some (parseDigits 0 (c # cs)) else None)"

text \<open>\<open>s.slice(a, b)\<close> and \<open>s.slice(a)\<close> for \<open>0 \<le> a \<le> b\<close>; out-of-range bounds are clamped.\<close>

definition slice :: "nat \<Rightarrow> nat \<Rightarrow> string \<Rightarrow> string" where
  "slice a b s = take (b - a) (drop a s)"

definition sliceFrom :: "nat \<Rightarrow> string \<Rightarrow> string" where
  "sliceFrom a s = drop a s"

text \<open>\<open>s.replace(/^0/, "")\<close>: one leading zero is dropped.\<close>

fun stripLeadingZero :: "string \<Rightarrow> string" where
  "stripLeadingZero [] = []"
| "stripLeadingZero (c # cs) = (if c = CHR ''0'' then cs else c # cs)"

fun startsWith :: "string \<Rightarrow> string \<Rightarrow> bool" where
  "startsWith s [] = True"
| "startsWith [] (p # ps) = False"
| "startsWith (c # cs) (p # ps) = (c = p \<and> startsWith cs ps)"

text \<open>\<open>s.split(sep)[0]\<close> for a non-empty separator: the text before its first occurrence.\<close>

fun beforeFirst :: "string \<Rightarrow> string \<Rightarrow> string" where
  "beforeFirst sep [] = []"
| "beforeFirst sep (c # cs) = (if startsWith (c # cs) sep then [] else c # beforeFirst sep cs)"

text \<open>\<open>s.replace(pat, rep)\<close> with a string pattern replaces the first occurrence only.\<close>

fun replaceFirst :: "string \<Rightarrow> string \<Rightarrow> string \<Rightarrow> string" where
  "replaceFirst pat rep [] = (if pat = [] then rep else [])"
| "replaceFirst pat rep (c # cs) =
     (if startsWith (c # cs) pat then rep @ drop (length pat) (c # cs)
      else c # replaceFirst pat rep cs)"

text \<open>\<open>s.split('/')\<close>: the pieces between the separator characters (at least one piece).\<close>

fun splitChar :: "char \<Rightarrow> string \<Rightarrow> string list" where
  "splitChar sep [] = [[]]"
| "splitChar sep (c # cs) =
     (if c = sep then [] # splitChar sep cs
      else (case splitChar sep cs of [] \<Rightarrow> [[c]] | p # ps \<Rightarrow> (c # p) # ps))"

fun joinWith :: "string \<Rightarrow> string list \<Rightarrow> string" where
  "joinWith sep [] = []"
| "joinWith sep [p] = p"
| "joinWith sep (p # q # ps) = p @ sep @ joinWith sep (q # ps)"

subsection \<open>The date line of \<open>processPage\<close> (cli.js, lines 132 to 135 and 140)\<close>

definition calendar :: "string list" where
  "calendar = [''January'', ''February'', ''March'', ''April'', ''May'', ''June'', ''July'',
               ''August'', ''September'', ''October'', ''November'', ''December'']"

text \<open>
  \<open>calendar[parseInt(...) - 1]\<close>: an index that is \<open>NaN\<close>, negative or past the end reads
  \<open>undefined\<close>, which the string concatenation of line 140 prints as \<open>undefined\<close>.
\<close>

definition monthName :: "nat option \<Rightarrow> string" where
  "monthName m = (case m of None \<Rightarrow> ''undefined''
                  | Some k \<Rightarrow> if 1 \<le> k \<and> k \<le> length calendar then calendar ! (k - 1)
                             else ''undefined'')"

definition dateString :: "nat \<Rightarrow> string" where
  "dateString date =
     (let month = monthName (parseInt (slice 4 6 (toString date)));
          day = stripLeadingZero (sliceFrom 6 (toString date));
          year = slice 0 4 (toString date)
      in month @ '' '' @ day @ '', '' @ year)"

section \<open>Documents\<close>

text \<open>
  A document as \<open>JSDOM\<close> holds it: the doctype (absent when the template has none, then
  \<open>document.doctype\<close> is \<open>null\<close>) and the tree of elements and text. HTML text is
  represented by the nodes it parses to, so reading \<open>innerHTML\<close> gives the children,
  assigning it replaces them, and concatenating HTML text appends node lists; the parser
  and the serialiser themselves belong to the library. The value last assigned to
  \<open>document.title\<close> is kept in the field \<open>docTitle\<close>: the \<open>title\<close> element that the setter
  creates or rewrites in \<open>head\<close> is not shown in \<open>nodes\<close>, neither in a collected document nor
  in the html element of a written file.
\<close>

datatype node = Element string "(string \<times> string) list" "node list" | Text string

record document =
  doctype :: "string option"
  docTitle :: "node list option"
  nodes :: "node list"

fun isElement :: "node \<Rightarrow> bool" where
  "isElement (Element t a cs) = True"
| "isElement (Text s) = False"

fun tagName :: "node \<Rightarrow> string" where
  "tagName (Element t a cs) = t"
| "tagName (Text s) = []"

fun childNodes :: "node \<Rightarrow> node list" where
  "childNodes (Element t a cs) = cs"
| "childNodes (Text s) = []"

fun getAttribute :: "string \<Rightarrow> node \<Rightarrow> string option" where
  "getAttribute k (Element t a cs) = map_of a k"
| "getAttribute k (Text s) = None"

text \<open>\<open>setAttribute\<close> overwrites an attribute in place or adds it at the end.\<close>

fun setAttr :: "string \<Rightarrow> string \<Rightarrow> (string \<times> string) list \<Rightarrow> (string \<times> string) list" where
  "setAttr k v [] = [(k, v)]"
| "setAttr k v ((k', v') # a) = (if k' = k then (k, v) # a else (k', v') # setAttr k v a)"

fun setAttribute :: "string \<Rightarrow> string \<Rightarrow> node \<Rightarrow> node" where
  "setAttribute k v (Element t a cs) = Element t (setAttr k v a) cs"
| "setAttribute k v (Text s) = Text s"

fun setInnerHTML :: "node list \<Rightarrow> node \<Rightarrow> node" where
  "setInnerHTML html (Element t a cs) = Element t a html"
| "setInnerHTML html (Text s) = Text s"

fun appendChild :: "node \<Rightarrow> node \<Rightarrow> node" where
  "appendChild c (Element t a cs) = Element t a (cs @ [c])"
| "appendChild c (Text s) = Text s"

text \<open>The elements of a subtree in document order, the root first.\<close>

fun descendants :: "node \<Rightarrow> node list" where
  "descendants (Text s) = []"
| "descendants (Element t a cs) = Element t a cs # concat (map descendants cs)"

definition elements :: "node list \<Rightarrow> node list" where
  "elements ns = concat (map descendants ns)"

definition hasTag :: "string \<Rightarrow> node \<Rightarrow> bool" where
  "hasTag t n = (isElement n \<and> tagName n = t)"

definition hasId :: "string \<Rightarrow> node \<Rightarrow> bool" where
  "hasId i n = (getAttribute ''id'' n = Some i)"

text \<open>The class attribute is a list of names separated by spaces.\<close>

definition hasClass :: "string \<Rightarrow> node \<Rightarrow> bool" where
  "hasClass c n = (case getAttribute ''class'' n of None \<Rightarrow> False
                   | Some v \<Rightarrow> c \<in> set (splitChar CHR '' '' v))"

definition getElementsByTagName :: "string \<Rightarrow> node list \<Rightarrow> node list" where
  "getElementsByTagName t ns = filter (hasTag t) (elements ns)"

definition getElementsByClassName :: "string \<Rightarrow> node list \<Rightarrow> node list" where
  "getElementsByClassName c ns = filter (hasClass c) (elements ns)"

definition getElementById :: "string \<Rightarrow> node list \<Rightarrow> node option" where
  "getElementById i ns = (case filter (hasId i) (elements ns) of [] \<Rightarrow> None | n # _ \<Rightarrow> Some n)"

text \<open>
  A mutation of the first element, in document order, that satisfies \<open>P\<close>: \<open>f\<close> gets the
  element and the siblings after it and returns what stands in their place. \<open>None\<close> when no
  element satisfies \<open>P\<close>, which is where the source dereferences \<open>undefined\<close> or \<open>null\<close>.
\<close>

fun modifyFirst :: "(node \<Rightarrow> bool) \<Rightarrow> (node \<Rightarrow> node list \<Rightarrow> node list) \<Rightarrow> node list
    \<Rightarrow> node list option" where
  "modifyFirst P f [] = None"
| "modifyFirst P f (Text s # ns) = map_option ((#) (Text s)) (modifyFirst P f ns)"
| "modifyFirst P f (Element t a cs # ns) =
     (if P (Element t a cs) then Some (f (Element t a cs) ns)
      else case modifyFirst P f cs of
             Some cs' \<Rightarrow> Some (Element t a cs' # ns)
           | None \<Rightarrow> map_option ((#) (Element t a cs)) (modifyFirst P f ns))"

text \<open>
  The same for the parent of the first element that satisfies \<open>P\<close>. \<open>AtTop\<close>: that element
  is not inside any element of the list, so its parent is not part of the tree searched.
\<close>

datatype 'a search = NotFound | AtTop | Inside 'a

fun modifyParentOfFirst :: "(node \<Rightarrow> bool) \<Rightarrow> (node \<Rightarrow> node list \<Rightarrow> node list) \<Rightarrow> node list
    \<Rightarrow> node list search" where
  "modifyParentOfFirst P f [] = NotFound"
| "modifyParentOfFirst P f (Text s # ns) =
     (case modifyParentOfFirst P f ns of
        NotFound \<Rightarrow> NotFound | AtTop \<Rightarrow> AtTop | Inside ns' \<Rightarrow> Inside (Text s # ns'))"
| "modifyParentOfFirst P f (Element t a cs # ns) =
     (if P (Element t a cs) then AtTop
      else case modifyParentOfFirst P f cs of
             AtTop \<Rightarrow> Inside (f (Element t a cs) ns)
           | Inside cs' \<Rightarrow> Inside (Element t a cs' # ns)
           | NotFound \<Rightarrow>
               (case modifyParentOfFirst P f ns of
                  NotFound \<Rightarrow> NotFound | AtTop \<Rightarrow> AtTop
                | Inside ns' \<Rightarrow> Inside (Element t a cs # ns')))"


section \<open>The build state, its inputs and its effects\<close>

text \<open>
  The front matter of a content file as \<open>fm\<close> returns it, with the keys that cli.js reads.
  A content file is given by its front matter and the HTML that \<open>marked.parse\<close> renders from
  its body.
\<close>

record frontmatter =
  publish :: "string option"
  template :: "string option"
  date :: "nat option"
  title :: "string option"

record content =
  attributes :: frontmatter
  body :: "node list"

text \<open>
  What the build reads besides the pages: the template files as \<open>JSDOM.fromFile\<close> parses
  them (\<open>None\<close>: no such file), the file \<open>templates/component_head.html\<close>, and the global
  \<open>postsPerPage\<close>.
\<close>

record env =
  templateFiles :: "string \<Rightarrow> document option"
  componentHead :: "node list option"
  postsPerPage :: nat

datatype error = ENOENT string | TypeError | Exit nat

datatype fileContent = Html string node | Raw string

datatype event = WriteFile string fileContent | ConsoleLog string | Enter string | Joined string

text \<open>
  The state is the global array \<open>blogPages\<close> and the effects so far, oldest first. \<open>Enter\<close>
  marks the entry into a function and \<open>Joined\<close> the return of the \<open>await\<close> of line 84 in the
  walk of a directory; they are ghost events that the program itself does not emit.
\<close>

type_synonym page = "frontmatter \<times> document \<times> string"

record state =
  blogPages :: "page list"
  out :: "event list"

datatype 'a outcome = Ok 'a state | Threw error state

definition emit :: "event \<Rightarrow> state \<Rightarrow> state" where
  "emit e s = s\<lparr>out := out s @ [e]\<rparr>"

text \<open>A string or a number in a condition: empty strings, zero and missing keys are falsy.\<close>

definition truthyString :: "string option \<Rightarrow> bool" where
  "truthyString v = (case v of None \<Rightarrow> False | Some x \<Rightarrow> x \<noteq> [])"

definition truthyNumber :: "nat option \<Rightarrow> bool" where
  "truthyNumber v = (case v of None \<Rightarrow> False | Some x \<Rightarrow> x \<noteq> 0)"

section \<open>\<open>processPage\<close> (cli.js, lines 89 to 172)\<close>

definition templatePathOf :: "frontmatter \<Rightarrow> string" where
  "templatePathOf fm =
     (if truthyString (template fm) then ''templates/'' @ the (template fm) @ ''.html''
      else ''templates/default.html'')"

definition pagePathParts :: "string \<Rightarrow> string list" where
  "pagePathParts pagePath = splitChar CHR ''/'' (replaceFirst ''pages/'' [] pagePath)"

definition pageNameOf :: "string \<Rightarrow> string" where
  "pageNameOf pagePath = beforeFirst ''.md'' (last (pagePathParts pagePath))"

definition targetPathOf :: "string \<Rightarrow> string" where
  "targetPathOf pagePath = joinWith ''/'' (butlast (pagePathParts pagePath))"

definition missingContentMessage :: "string \<Rightarrow> string" where
  "missingContentMessage templatePath =
     ''Could not find element with id 'page-content' in template '' @ templatePath
       @ ''. Generating page without markdown content.''"

definition dateSpan :: "nat \<Rightarrow> node" where
  "dateSpan d = Element ''span'' [(''class'', ''muted date'')] [Text (dateString d)]"

text \<open>Lines 131 to 143: the span goes in front of the next sibling of the first h2.\<close>

definition insertDate :: "nat \<Rightarrow> node list \<Rightarrow> node list option" where
  "insertDate d ns = modifyFirst (hasTag ''h2'') (\<lambda>h2 rest. h2 # dateSpan d # rest) ns"

text \<open>Lines 152 to 162: the title of the front matter, or else the content of the first h1.\<close>

definition pageTitle :: "frontmatter \<Rightarrow> node list \<Rightarrow> node list option" where
  "pageTitle fm ns =
     (if truthyString (title fm) then Some [Text (the (title fm))]
      else case getElementsByTagName ''h1'' ns of
             [] \<Rightarrow> None
           | h1 # _ \<Rightarrow> if childNodes h1 \<noteq> [] then Some (childNodes h1) else None)"

definition setTitle :: "frontmatter \<Rightarrow> document \<Rightarrow> document" where
  "setTitle fm d = (case pageTitle fm (nodes d) of None \<Rightarrow> d | Some t \<Rightarrow> d\<lparr>docTitle := Some t\<rparr>)"

text \<open>
  Lines 100 to 162, after the \<open>publish\<close> check: the template is loaded and mutated. The
  result is the document, or the error that ends the transform.
\<close>

definition transformPage :: "env \<Rightarrow> content \<Rightarrow> state \<Rightarrow> document outcome" where
  "transformPage E c s =
     (let fm = attributes c; templatePath = templatePathOf fm in
      case templateFiles E templatePath of
        None \<Rightarrow> Threw (ENOENT templatePath) s
      | Some tmpl \<Rightarrow>
      case componentHead E of
        None \<Rightarrow> Threw (ENOENT ''templates/component_head.html'') s
      | Some head \<Rightarrow>
      case modifyFirst (hasTag ''head'') (\<lambda>h rest. setInnerHTML head h # rest) (nodes tmpl) of
        None \<Rightarrow> Threw TypeError s
      | Some ns1 \<Rightarrow>
      let (ns2, s2) =
        (case modifyFirst (hasId ''page-content'') (\<lambda>e rest. setInnerHTML (body c) e # rest) ns1 of
           Some ns \<Rightarrow> (ns, s)
         | None \<Rightarrow> (ns1, emit (ConsoleLog (missingContentMessage templatePath)) s)) in
      case (if truthyNumber (date fm) then insertDate (the (date fm)) ns2 else Some ns2) of
        None \<Rightarrow> Threw TypeError s2
      | Some ns3 \<Rightarrow>
      if getElementsByTagName ''html'' ns3 = []
      then Threw (Exit 1) (emit (ConsoleLog ''Templates should contain the 'html' tag.'') s2)
      else Ok (setTitle fm (tmpl\<lparr>nodes := ns3\<rparr>)) s2)"

definition outputPath :: "string \<Rightarrow> string" where
  "outputPath pagePath = ''public/'' @ targetPathOf pagePath @ ''/'' @ pageNameOf pagePath @ ''.html''"

text \<open>Lines 169 and 222: the doctype line and the \<open>outerHTML\<close> of the first html element.\<close>

definition finalHtml :: "document \<Rightarrow> fileContent option" where
  "finalHtml d =
     (case doctype d of None \<Rightarrow> None
      | Some name \<Rightarrow> (case getElementsByTagName ''html'' (nodes d) of
                         [] \<Rightarrow> None
                       | h # _ \<Rightarrow> Some (Html name h)))"

definition processPage :: "env \<Rightarrow> string \<Rightarrow> content \<Rightarrow> state \<Rightarrow> unit outcome" where
  "processPage E pagePath c s =
     (if publish (attributes c) = Some ''no'' then Ok () s
      else case transformPage E c s of
        Threw e s' \<Rightarrow> Threw e s'
      | Ok d s' \<Rightarrow>
          if targetPathOf pagePath = ''blog''
          then Ok () (s'\<lparr>blogPages := blogPages s' @ [(attributes c, d, pageNameOf pagePath)]\<rparr>)
          else case finalHtml d of
                 None \<Rightarrow> Threw TypeError s'
               | Some f \<Rightarrow> Ok () (emit (WriteFile (outputPath pagePath) f) s'))"

section \<open>\<open>blogIndex\<close> (cli.js, lines 174 to 273)\<close>

subsection \<open>The sort of line 177\<close>

text \<open>
  The comparator \<open>b[0].date - a[0].date\<close>; a missing date makes the difference \<open>NaN\<close>,
  which \<open>Array.prototype.sort\<close> reads as \<open>+0\<close>.
\<close>

definition compareFn :: "page \<Rightarrow> page \<Rightarrow> int" where
  "compareFn a b =
     (case (date (fst b), date (fst a)) of
        (Some db, Some da) \<Rightarrow> int db - int da
      | _ \<Rightarrow> 0)"

text \<open>
  \<open>Array.prototype.sort\<close> is stable (ECMAScript 2019). When every page has a date the
  comparator is a consistent ordering and every stable sort returns the same array: the
  pages in descending order of date, pages of the same date in the order they had. It is
  written here as the insertion of each element in front of the sorted rest, before the
  first element that it does not have to follow. When a page has no date the comparator
  is not consistent and the order is left to the implementation: the function below then
  returns a permutation of the pages that need not be the one of Node's sort, and what is
  proved about the order is proved for pages that all have a date.
\<close>

fun insertPage :: "page \<Rightarrow> page list \<Rightarrow> page list" where
  "insertPage a [] = [a]"
| "insertPage a (b # bs) = (if compareFn a b \<le> 0 then a # b # bs else b # insertPage a bs)"

definition sortPages :: "page list \<Rightarrow> page list" where
  "sortPages ps = foldr insertPage ps []"

subsection \<open>One post (lines 194 to 225)\<close>

definition postHref :: "string \<Rightarrow> string" where
  "postHref name = ''/blog/'' @ name"

definition isInside :: "'a search \<Rightarrow> 'a option" where
  "isInside r = (case r of Inside x \<Rightarrow> Some x | _ \<Rightarrow> None)"

definition notElement :: "node \<Rightarrow> bool" where
  "notElement n = (\<not> isElement n)"

text \<open>
  Lines 196 to 207, on the copy of the document: the heading becomes a link, the
  \<open>readmore\<close> link points at the post, the element siblings after its parent are removed,
  and the content of \<open>page-content\<close> is the excerpt. The link around the content of the
  heading is what the parser makes of line 199 for a heading that holds no link itself;
  before a link inside the heading the parser would close the new one.
\<close>

definition excerptOf :: "page \<Rightarrow> node list option" where
  "excerptOf page =
     (case page of (fm, doc, name) \<Rightarrow>
      do {
        c1 \<leftarrow> modifyFirst (hasTag ''h2'')
               (\<lambda>h2 rest. setInnerHTML [Element ''a'' [(''href'', postHref name)] (childNodes h2)] h2 # rest)
               (nodes doc);
        c2 \<leftarrow> modifyFirst (hasClass ''readmore'')
               (\<lambda>a rest. setAttribute ''href'' (postHref name) a # rest) c1;
        c3 \<leftarrow> isInside (modifyParentOfFirst (hasClass ''readmore'')
               (\<lambda>parent rest. parent # filter notElement rest) c2);
        content \<leftarrow> getElementById ''page-content'' c3;
        Some (childNodes content)
      })"

text \<open>Line 209, on the document itself: the parent of the \<open>readmore\<close> link is removed.\<close>

definition removeReadMore :: "node list \<Rightarrow> node list option" where
  "removeReadMore ns = isInside (modifyParentOfFirst (hasClass ''readmore'') (\<lambda>parent rest. rest) ns)"

definition newerButton :: "string \<Rightarrow> node" where
  "newerButton name =
     Element ''span'' []
       [Element ''a'' [(''href'', postHref name), (''class'', ''readmore floatleft'')] [Text ''Newer'']]"

definition olderButton :: "string \<Rightarrow> node" where
  "olderButton name =
     Element ''span'' []
       [Element ''a'' [(''href'', postHref name), (''class'', ''readmore floatright'')] [Text ''Older'']]"

definition appendToContent :: "node \<Rightarrow> node list \<Rightarrow> node list option" where
  "appendToContent c ns = modifyFirst (hasId ''page-content'') (\<lambda>e rest. appendChild c e # rest) ns"

text \<open>\<open>originalBlogPages[i][2]\<close>; past the end the array gives \<open>undefined\<close> and the index throws.\<close>

definition nameAt :: "page list \<Rightarrow> nat \<Rightarrow> string option" where
  "nameAt ps i = (if i < length ps then Some (snd (snd (ps ! i))) else None)"

text \<open>Lines 209 to 221: the document of the post itself, with its newer and older links.\<close>

definition postDocument :: "page list \<Rightarrow> nat \<Rightarrow> nat \<Rightarrow> page \<Rightarrow> document option" where
  "postDocument originalBlogPages totalBlogPages pageIndex page =
     (case page of (fm, doc, name) \<Rightarrow>
      do {
        d1 \<leftarrow> removeReadMore (nodes doc);
        d2 \<leftarrow> (if pageIndex \<noteq> 0
               then do { newer \<leftarrow> nameAt originalBlogPages (pageIndex - 1);
                         appendToContent (newerButton newer) d1 }
               else Some d1);
        d3 \<leftarrow> (if int pageIndex \<noteq> int totalBlogPages - 1
               then do { older \<leftarrow> nameAt originalBlogPages (pageIndex + 1);
                         appendToContent (olderButton older) d2 }
               else Some d2);
        Some (doc\<lparr>nodes := d3\<rparr>)
      })"

definition postPath :: "string \<Rightarrow> string" where
  "postPath name = ''public/blog/'' @ name @ ''.html''"

text \<open>
  The body of the inner loop: every failure in it is the \<open>TypeError\<close> of a missing element
  and comes before the write of line 223.
\<close>

definition blogPost :: "page list \<Rightarrow> nat \<Rightarrow> nat \<Rightarrow> page \<Rightarrow> (node list \<times> event) option" where
  "blogPost originalBlogPages totalBlogPages pageIndex page =
     do {
       excerpt \<leftarrow> excerptOf page;
       d \<leftarrow> postDocument originalBlogPages totalBlogPages pageIndex page;
       f \<leftarrow> finalHtml d;
       Some (excerpt, WriteFile (postPath (snd (snd page))) f)
     }"

fun forPages :: "page list \<Rightarrow> nat \<Rightarrow> page list \<Rightarrow> node list \<Rightarrow> nat \<Rightarrow> state
    \<Rightarrow> (node list \<times> nat) outcome" where
  "forPages orig totalBlogPages [] aggregatePages pageIndex s = Ok (aggregatePages, pageIndex) s"
| "forPages orig totalBlogPages (page # rest) aggregatePages pageIndex s =
     (case blogPost orig totalBlogPages pageIndex page of
        None \<Rightarrow> Threw TypeError s
      | Some (excerpt, w) \<Rightarrow>
          forPages orig totalBlogPages rest (aggregatePages @ excerpt) (pageIndex + 1) (emit w s))"

subsection \<open>One index page (lines 185 to 271)\<close>

definition linkTo :: "string \<Rightarrow> string \<Rightarrow> node list" where
  "linkTo href label = [Element ''a'' [(''href'', href)] [Text label]]"

text \<open>
  The statements of lines 231 to 261 in their order, each the id it looks up and what it
  does to that element.
\<close>

definition paginationEdits :: "nat \<Rightarrow> nat \<Rightarrow> (string \<times> (node \<Rightarrow> node)) list" where
  "paginationEdits pageCount totalIndexPages =
     (let muted = setAttribute ''class'' ''muted'';
          beginLink = (''paginationBegin'', setInnerHTML (linkTo ''/'' ''<<''));
          back = (''paginationBack'',
                  if pageCount = 2 then setInnerHTML (linkTo ''/'' ''<'')
                  else setInnerHTML (linkTo (''/'' @ toString (pageCount - 1)) ''<''));
          forward = (''paginationForward'', setInnerHTML (linkTo (''/'' @ toString (pageCount + 1)) ''>''));
          endLink = (''paginationEnd'', setInnerHTML (linkTo (''/'' @ toString totalIndexPages) ''>>''))
      in
      (if pageCount = 1
       then [(''paginationBegin'', muted), (''paginationBack'', muted)]
            @ (if pageCount \<noteq> totalIndexPages then [forward, endLink] else [])
       else [])
      @ (if pageCount = totalIndexPages
         then [(''paginationForward'', muted), (''paginationEnd'', muted)]
              @ (if pageCount \<noteq> 1 then [beginLink, back] else [])
         else [])
      @ (if pageCount \<noteq> 1 \<and> pageCount \<noteq> totalIndexPages then [beginLink, back, forward, endLink] else [])
      @ [(''paginationPages'',
          setInnerHTML [Text (toString pageCount @ '' of '' @ toString totalIndexPages)])])"

fun applyEdits :: "(string \<times> (node \<Rightarrow> node)) list \<Rightarrow> node list \<Rightarrow> node list option" where
  "applyEdits [] ns = Some ns"
| "applyEdits ((i, f) # edits) ns =
     (case modifyFirst (hasId i) (\<lambda>e rest. f e # rest) ns of
        None \<Rightarrow> None
      | Some ns' \<Rightarrow> applyEdits edits ns')"

definition indexPath :: "nat \<Rightarrow> string" where
  "indexPath pageCount =
     (if pageCount = 1 then ''public/index.html'' else ''public/'' @ toString pageCount @ ''.html'')"

definition indexDocument :: "node list \<Rightarrow> nat \<Rightarrow> nat \<Rightarrow> node list \<Rightarrow> fileContent option" where
  "indexDocument aggregatePages pageCount totalIndexPages ns =
     do {
       n1 \<leftarrow> modifyFirst (hasId ''page-content'') (\<lambda>e rest. setInnerHTML aggregatePages e # rest) ns;
       n2 \<leftarrow> applyEdits (paginationEdits pageCount totalIndexPages) n1;
       (case getElementsByTagName ''html'' n2 of [] \<Rightarrow> None | h # _ \<Rightarrow> Some (Html ''html'' h))
     }"

text \<open>
  One round of the \<open>while\<close> loop. \<open>splice(0, postsPerPage)\<close> takes the batch off the global
  array before the posts are handled. The result is the new \<open>pageIndex\<close>.
\<close>

definition indexPage :: "env \<Rightarrow> page list \<Rightarrow> nat \<Rightarrow> nat \<Rightarrow> nat \<Rightarrow> nat \<Rightarrow> state \<Rightarrow> nat outcome" where
  "indexPage E orig totalBlogPages totalIndexPages pageCount pageIndex s =
     (case templateFiles E ''templates/blogIndex.html'' of
        None \<Rightarrow> Threw (ENOENT ''templates/blogIndex.html'') s
      | Some tmpl \<Rightarrow>
      case componentHead E of
        None \<Rightarrow> Threw (ENOENT ''templates/component_head.html'') s
      | Some head \<Rightarrow>
      case modifyFirst (hasTag ''head'') (\<lambda>h rest. setInnerHTML head h # rest) (nodes tmpl) of
        None \<Rightarrow> Threw TypeError s
      | Some ns \<Rightarrow>
      let blogPagesSplice = take (postsPerPage E) (blogPages s);
          s1 = s\<lparr>blogPages := drop (postsPerPage E) (blogPages s)\<rparr> in
      case forPages orig totalBlogPages blogPagesSplice [] pageIndex s1 of
        Threw e s2 \<Rightarrow> Threw e s2
      | Ok (aggregatePages, pageIndex') s2 \<Rightarrow>
      case indexDocument aggregatePages pageCount totalIndexPages ns of
        None \<Rightarrow> Threw TypeError s2
      | Some f \<Rightarrow> Ok pageIndex' (emit (WriteFile (indexPath pageCount) f) s2))"

subsection \<open>The loop and the function\<close>

text \<open>
  The loop ends when \<open>blogPages\<close> is empty. With \<open>postsPerPage = 0\<close> the splice takes nothing
  and the loop does not end: the result is \<open>None\<close>.
\<close>

partial_function (option) blogIndexLoop ::
    "env \<Rightarrow> page list \<Rightarrow> nat \<Rightarrow> nat \<Rightarrow> nat \<Rightarrow> nat \<Rightarrow> state \<Rightarrow> unit outcome option" where
  "blogIndexLoop E orig totalBlogPages totalIndexPages pageCount pageIndex s =
     (if blogPages s = [] then Some (Ok () s)
      else case indexPage E orig totalBlogPages totalIndexPages pageCount pageIndex s of
             Threw e s' \<Rightarrow> Some (Threw e s')
           | Ok pageIndex' s' \<Rightarrow>
               blogIndexLoop E orig totalBlogPages totalIndexPages (pageCount + 1) pageIndex' s')"

declare blogIndexLoop.simps [code]

text \<open>
  \<open>Math.ceil(blogPages.length / postsPerPage)\<close> for a positive \<open>postsPerPage\<close>. (With
  \<open>postsPerPage = 0\<close> the quotient is not a number; the value is then only used inside the
  loop that does not end.)
\<close>

definition ceilDiv :: "nat \<Rightarrow> nat \<Rightarrow> nat" where
  "ceilDiv n p = (n + p - 1) div p"

definition blogIndex :: "env \<Rightarrow> state \<Rightarrow> unit outcome option" where
  "blogIndex E s =
     (let s0 = emit (Enter ''blogIndex'') s;
          sorted = sortPages (blogPages s0);
          s1 = s0\<lparr>blogPages := sorted\<rparr>;
          originalBlogPages = sorted;
          totalBlogPages = length sorted;
          totalIndexPages = ceilDiv (length sorted) (postsPerPage E)
      in blogIndexLoop E originalBlogPages totalBlogPages totalIndexPages 1 0 s1)"

section \<open>\<open>processDirectory\<close> (cli.js, lines 70 to 87)\<close>

text \<open>
  The directory \<open>pages\<close> as \<open>readdir\<close> and \<open>lstat\<close> show it: the entries of a directory in the
  order of the listing, each a content file or a directory.
\<close>

datatype entry = File string content | Directory string "entry list"

subsection \<open>The join of line 84 by itself\<close>

text \<open>
  The transforms that \<open>processDirectory\<close> starts are asynchronous: a call of \<open>processPage\<close>
  returns a promise at its first \<open>await\<close>, the transform goes on when the files it waits
  for have been read, and after the read of line 113 it runs lines 114 to 171 in one piece.
  That piece has all the effects of the transform: the log, the push to \<open>blogPages\<close> and the
  call of \<open>writeFile\<close>. The model takes the whole transform to run at that moment, which
  depends on the file system. The order in which the transforms of an array complete is
  therefore a parameter: a list of numbers, which picks, one after the other, the transform
  that completes next among those still pending (the number is taken modulo how many are
  left; when the list is used up the rest completes in the order of the start). Every
  order of completion is given by some such list. A schedule gives the list for the join
  of every directory.
\<close>

type_synonym schedule = "string \<Rightarrow> nat list"

fun completionOrder :: "nat list \<Rightarrow> 'a list \<Rightarrow> 'a list" where
  "completionOrder picks [] = []"
| "completionOrder [] xs = xs"
| "completionOrder (i # picks) xs =
     (let j = i mod length xs in xs ! j # completionOrder picks (take j xs @ drop (Suc j) xs))"

text \<open>
  \<open>await Promise.all(processPagePromises)\<close> when the transforms of the array are the only
  ones pending, given in the order of their completion: each takes effect, and the first
  one that fails makes the \<open>await\<close> throw. The result is the outcome of the \<open>await\<close> and the
  state at that moment. The transforms that are still pending then are not cancelled; the
  walk below keeps them in its list of promises.
\<close>

fun promiseAll :: "env \<Rightarrow> (string \<times> content) list \<Rightarrow> state \<Rightarrow> unit outcome" where
  "promiseAll E [] s = Ok () s"
| "promiseAll E ((pagePath, c) # rest) s =
     (case processPage E pagePath c s of
        Threw e s' \<Rightarrow> Threw e s'
      | Ok u s' \<Rightarrow> promiseAll E rest s')"

subsection \<open>The promises of a walk\<close>

text \<open>
  During the walk of a subdirectory the transforms that the directories above it have
  started are still pending and complete at any \<open>await\<close>. The walk therefore carries the
  promises that are not fulfilled: a pending one with the path and the content of its
  page, a rejected one with its error. Each is listed with the path of the directory whose
  walk started it, that is, whose array \<open>processPagePromises\<close> holds it, in the order of the
  start. A fulfilled promise is taken off the list.
\<close>

datatype promise = Pending string content | Rejected error

type_synonym promises = "(string \<times> promise) list"

fun isPending :: "string \<times> promise \<Rightarrow> bool" where
  "isPending (directoryPath, Pending pagePath c) = True"
| "isPending (directoryPath, Rejected e) = False"

text \<open>
  The pending transform number \<open>k\<close>, counted from 0 among the pending ones, runs to its end.
  The others are left as they are: nothing cancels a transform.
\<close>

fun settle :: "env \<Rightarrow> nat \<Rightarrow> promises \<Rightarrow> state \<Rightarrow> promises \<times> state" where
  "settle E k [] s = ([], s)"
| "settle E k ((directoryPath, Rejected e) # rest) s =
     (case settle E k rest s of (rest', s') \<Rightarrow> ((directoryPath, Rejected e) # rest', s'))"
| "settle E k ((directoryPath, Pending pagePath c) # rest) s =
     (case k of
        0 \<Rightarrow> (case processPage E pagePath c s of
                Ok u s' \<Rightarrow> (rest, s')
              | Threw e s' \<Rightarrow> ((directoryPath, Rejected e) # rest, s'))
      | Suc k' \<Rightarrow>
          (case settle E k' rest s of (rest', s') \<Rightarrow> ((directoryPath, Pending pagePath c) # rest', s')))"

text \<open>
  What happens while the walk waits at an \<open>await\<close>: the transforms picked by a list of
  numbers complete one after the other (each number is taken modulo the number of pending
  transforms).
\<close>

fun completions :: "env \<Rightarrow> nat list \<Rightarrow> promises \<Rightarrow> state \<Rightarrow> promises \<times> state" where
  "completions E [] running s = (running, s)"
| "completions E (i # picks) running s =
     (case settle E (i mod length (filter isPending running)) running s of
        (running', s') \<Rightarrow> completions E picks running' s')"

text \<open>
  \<open>await Promise.all(processPagePromises)\<close> in the walk of \<open>directoryPath\<close>. \<open>Promise.all\<close>
  rejects with the first rejection that reaches it: that of the first rejected promise of
  the array when some are rejected already, and else that of the first transform of the
  array that fails while the walk waits. The walk then throws at once; its other
  transforms stay pending. When no transform of the array fails the walk waits until all
  of them have completed: first the picked ones, among which are transforms of the
  directories above, then the rest of the array in the order of the start.
  (A promise rejected before line 84 is reached is an unhandled rejection; Node 15 and
  later end the process at that moment, which cuts the run short of what is modelled
  here.)
\<close>

fun firstRejected :: "string \<Rightarrow> promises \<Rightarrow> error option" where
  "firstRejected directoryPath [] = None"
| "firstRejected directoryPath ((d, Rejected e) # rest) =
     (if d = directoryPath then Some e else firstRejected directoryPath rest)"
| "firstRejected directoryPath ((d, Pending pagePath c) # rest) = firstRejected directoryPath rest"

fun remaining :: "env \<Rightarrow> string \<Rightarrow> promises \<Rightarrow> state \<Rightarrow> promises \<times> unit outcome" where
  "remaining E directoryPath [] s = ([], Ok () s)"
| "remaining E directoryPath ((d, Rejected e) # rest) s =
     (if d = directoryPath then ((d, Rejected e) # rest, Threw e s)
      else case remaining E directoryPath rest s of (rest', r) \<Rightarrow> ((d, Rejected e) # rest', r))"
| "remaining E directoryPath ((d, Pending pagePath c) # rest) s =
     (if d = directoryPath
      then case processPage E pagePath c s of
             Ok u s' \<Rightarrow> remaining E directoryPath rest s'
           | Threw e s' \<Rightarrow> ((d, Rejected e) # rest, Threw e s')
      else case remaining E directoryPath rest s of (rest', r) \<Rightarrow> ((d, Pending pagePath c) # rest', r))"

fun awaitPromiseAll :: "env \<Rightarrow> string \<Rightarrow> nat list \<Rightarrow> promises \<Rightarrow> state \<Rightarrow> promises \<times> unit outcome" where
  "awaitPromiseAll E directoryPath [] running s =
     (case firstRejected directoryPath running of
        Some e \<Rightarrow> (running, Threw e s)
      | None \<Rightarrow> remaining E directoryPath running s)"
| "awaitPromiseAll E directoryPath (i # picks) running s =
     (case firstRejected directoryPath running of
        Some e \<Rightarrow> (running, Threw e s)
      | None \<Rightarrow>
          (case settle E (i mod length (filter isPending running)) running s of
             (running', s') \<Rightarrow> awaitPromiseAll E directoryPath picks running' s'))"

subsection \<open>\<open>blogIndex\<close> while transforms are pending\<close>

text \<open>
  When the walk of a subdirectory calls \<open>blogIndex\<close>, transforms of the directories above
  may still be pending. They complete at the \<open>await\<close>s of \<open>blogIndex\<close> (lines 185, 188, 223,
  263 and 266), where they log, write or push to \<open>blogPages\<close>. The functions of this
  subsection are \<open>forPages\<close>, \<open>indexPage\<close>, the loop and \<open>blogIndex\<close> with these \<open>await\<close>s. They
  carry the promises and, as a parameter, the transforms that complete at each \<open>await\<close>
  to come: one list of picks for each \<open>await\<close> in the order of the run; when the lists are
  used up nothing completes any more.
\<close>

type_synonym waiting = "nat list list \<times> promises"

definition nextPicks :: "nat list list \<Rightarrow> nat list" where
  "nextPicks waits = (case waits of [] \<Rightarrow> [] | picks # _ \<Rightarrow> picks)"

definition wait :: "env \<Rightarrow> waiting \<Rightarrow> state \<Rightarrow> waiting \<times> state" where
  "wait E w s =
     (case w of (waits, running) \<Rightarrow>
        (case completions E (nextPicks waits) running s of
           (running', s') \<Rightarrow> ((tl waits, running'), s')))"

text \<open>The write of a post is issued (line 223) before the \<open>await\<close> of its end.\<close>

fun forPagesDuring :: "env \<Rightarrow> page list \<Rightarrow> nat \<Rightarrow> page list \<Rightarrow> node list \<Rightarrow> nat \<Rightarrow> waiting \<Rightarrow> state
    \<Rightarrow> waiting \<times> (node list \<times> nat) outcome" where
  "forPagesDuring E orig totalBlogPages [] aggregatePages pageIndex w s =
     (w, Ok (aggregatePages, pageIndex) s)"
| "forPagesDuring E orig totalBlogPages (page # rest) aggregatePages pageIndex w s =
     (case blogPost orig totalBlogPages pageIndex page of
        None \<Rightarrow> (w, Threw TypeError s)
      | Some (excerpt, post) \<Rightarrow>
          (case wait E w (emit post s) of
             (w', s') \<Rightarrow>
               forPagesDuring E orig totalBlogPages rest (aggregatePages @ excerpt) (pageIndex + 1) w' s'))"

text \<open>
  One round of the loop: the two reads (lines 185 and 188) come before the \<open>splice\<close>, which
  takes what \<open>blogPages\<close> holds then; the write of the index page is issued before the
  \<open>await\<close> of its end.
\<close>

definition indexPageDuring :: "env \<Rightarrow> page list \<Rightarrow> nat \<Rightarrow> nat \<Rightarrow> nat \<Rightarrow> nat \<Rightarrow> waiting \<Rightarrow> state
    \<Rightarrow> waiting \<times> nat outcome" where
  "indexPageDuring E orig totalBlogPages totalIndexPages pageCount pageIndex w s =
     (case wait E w s of (w1, s1) \<Rightarrow>
      case templateFiles E ''templates/blogIndex.html'' of
        None \<Rightarrow> (w1, Threw (ENOENT ''templates/blogIndex.html'') s1)
      | Some tmpl \<Rightarrow>
      case wait E w1 s1 of (w2, s2) \<Rightarrow>
      case componentHead E of
        None \<Rightarrow> (w2, Threw (ENOENT ''templates/component_head.html'') s2)
      | Some head \<Rightarrow>
      case modifyFirst (hasTag ''head'') (\<lambda>h rest. setInnerHTML head h # rest) (nodes tmpl) of
        None \<Rightarrow> (w2, Threw TypeError s2)
      | Some ns \<Rightarrow>
      let blogPagesSplice = take (postsPerPage E) (blogPages s2);
          s3 = s2\<lparr>blogPages := drop (postsPerPage E) (blogPages s2)\<rparr> in
      case forPagesDuring E orig totalBlogPages blogPagesSplice [] pageIndex w2 s3 of
        (w3, Threw e s4) \<Rightarrow> (w3, Threw e s4)
      | (w3, Ok (aggregatePages, pageIndex') s4) \<Rightarrow>
      case indexDocument aggregatePages pageCount totalIndexPages ns of
        None \<Rightarrow> (w3, Threw TypeError s4)
      | Some f \<Rightarrow>
          (case wait E w3 (emit (WriteFile (indexPath pageCount) f) s4) of
             (w4, s5) \<Rightarrow> (w4, Ok pageIndex' s5)))"

partial_function (option) blogIndexLoopDuring ::
    "env \<Rightarrow> page list \<Rightarrow> nat \<Rightarrow> nat \<Rightarrow> nat \<Rightarrow> nat \<Rightarrow> waiting \<Rightarrow> state
      \<Rightarrow> (waiting \<times> unit outcome) option" where
  "blogIndexLoopDuring E orig totalBlogPages totalIndexPages pageCount pageIndex w s =
     (if blogPages s = [] then Some (w, Ok () s)
      else case indexPageDuring E orig totalBlogPages totalIndexPages pageCount pageIndex w s of
             (w', Threw e s') \<Rightarrow> Some (w', Threw e s')
           | (w', Ok pageIndex' s') \<Rightarrow>
               blogIndexLoopDuring E orig totalBlogPages totalIndexPages (pageCount + 1) pageIndex' w' s')"

definition blogIndexDuring :: "env \<Rightarrow> waiting \<Rightarrow> state \<Rightarrow> (waiting \<times> unit outcome) option" where
  "blogIndexDuring E w s =
     (let s0 = emit (Enter ''blogIndex'') s;
          sorted = sortPages (blogPages s0);
          s1 = s0\<lparr>blogPages := sorted\<rparr>;
          originalBlogPages = sorted;
          totalBlogPages = length sorted;
          totalIndexPages = ceilDiv (length sorted) (postsPerPage E)
      in blogIndexLoopDuring E originalBlogPages totalBlogPages totalIndexPages 1 0 w s1)"

subsection \<open>The walk\<close>

text \<open>
  The transforms that complete before the join and inside \<open>blogIndex\<close> are a second
  parameter. For every directory path it gives, for each entry of the listing in its
  order, the transforms that complete while the walk waits for \<open>lstat\<close> of that entry (line
  75), an entry past the end of the list having none, and for each \<open>await\<close> of the call of
  \<open>blogIndex\<close> in line 85 the transforms that complete there. The walk has no effect of its
  own between the other places where it waits (\<open>readdir\<close> in line 71, the end of the write
  of line 86) and the next \<open>lstat\<close> or join, so what completes there is counted with that
  next place.
\<close>

record interleaving =
  atEntries :: "string \<Rightarrow> nat list list"
  inBlogIndex :: "string \<Rightarrow> nat list list"

definition cname :: event where
  "cname = WriteFile ''public/CNAME'' (Raw ''www.jasonhallen.com'')"

text \<open>
  Lines 84 to 86, after the loop over the entries: the join, \<open>blogIndex\<close> and the write of
  \<open>CNAME\<close>. The argument is the result of the loop, the result that of the call of
  \<open>processDirectory\<close>: the promises that are not fulfilled and the outcome. \<open>Joined\<close> marks
  the return of the \<open>await\<close> of line 84; like \<open>Enter\<close> it is a ghost event.
\<close>

definition joinAndAggregate :: "env \<Rightarrow> interleaving \<Rightarrow> schedule \<Rightarrow> string
    \<Rightarrow> (promises \<times> unit outcome) option \<Rightarrow> (promises \<times> unit outcome) option" where
  "joinAndAggregate E during sched directoryPath looped =
     (case looped of
        None \<Rightarrow> None
      | Some (running, Threw e s) \<Rightarrow> Some (running, Threw e s)
      | Some (running, Ok u s) \<Rightarrow>
          (case awaitPromiseAll E directoryPath (sched directoryPath) running s of
             (running1, Threw e s1) \<Rightarrow> Some (running1, Threw e s1)
           | (running1, Ok u s1) \<Rightarrow>
               (case blogIndexDuring E (inBlogIndex during directoryPath, running1)
                       (emit (Joined directoryPath) s1) of
                  None \<Rightarrow> None
                | Some ((waits, running2), Threw e s2) \<Rightarrow> Some (running2, Threw e s2)
                | Some ((waits, running2), Ok u s2) \<Rightarrow> Some (running2, Ok () (emit cname s2)))))"

text \<open>
  The loop of lines 74 to 83. A directory is walked to its end, with its own join,
  \<open>blogIndex\<close> and \<open>CNAME\<close>, before the loop goes on; a file whose name does not start with a
  dot has its transform started.
\<close>

fun forEntries :: "env \<Rightarrow> interleaving \<Rightarrow> schedule \<Rightarrow> string \<Rightarrow> entry list \<Rightarrow> nat list list
    \<Rightarrow> promises \<Rightarrow> state \<Rightarrow> (promises \<times> unit outcome) option" where
  "forEntries E during sched directoryPath [] waits running s = Some (running, Ok () s)"
| "forEntries E during sched directoryPath (Directory element sub # rest) waits running s =
     (case completions E (nextPicks waits) running s of
        (running1, s1) \<Rightarrow>
          (case joinAndAggregate E during sched (directoryPath @ ''/'' @ element)
                  (forEntries E during sched (directoryPath @ ''/'' @ element) sub
                     (atEntries during (directoryPath @ ''/'' @ element)) running1 s1) of
             None \<Rightarrow> None
           | Some (running2, Threw e s2) \<Rightarrow> Some (running2, Threw e s2)
           | Some (running2, Ok u s2) \<Rightarrow>
               forEntries E during sched directoryPath rest (tl waits) running2 s2))"
| "forEntries E during sched directoryPath (File element c # rest) waits running s =
     (case completions E (nextPicks waits) running s of
        (running1, s1) \<Rightarrow>
          forEntries E during sched directoryPath rest (tl waits)
            (if startsWith element ''.'' then running1
             else running1 @ [(directoryPath, Pending (directoryPath @ ''/'' @ element) c)]) s1)"

text \<open>
  The call of line 67, with no transform pending. The result is the outcome of the walk;
  after a throw the transforms that are still pending go on, which the outcome does not
  show.
\<close>

definition processDirectory :: "env \<Rightarrow> interleaving \<Rightarrow> schedule \<Rightarrow> string \<Rightarrow> entry list \<Rightarrow> state
    \<Rightarrow> unit outcome option" where
  "processDirectory E during sched directoryPath contents s =
     map_option snd
       (joinAndAggregate E during sched directoryPath
          (forEntries E during sched directoryPath contents (atEntries during directoryPath) [] s))"

section \<open>The comment thread (the variant of \<open>blogIndex\<close> in README.md, lines 457 to 496)\<close>

text \<open>
  A comment file as \<open>yaml.parse\<close> returns it: the keys \<open>_id\<close>, \<open>name\<close>, \<open>replying_to_uid\<close>,
  the message as \<open>marked.parse\<close> renders it, and the text that lines 476 to 478 make of
  the key \<open>date\<close> with the locale of the machine. Names and ids are taken to hold no markup.
\<close>

record comment =
  uid :: string
  commenterName :: string
  postedAt :: string
  message :: "node list"
  replying_to_uid :: "string option"

definition articleAttributes :: "comment \<Rightarrow> string \<Rightarrow> (string \<times> string) list" where
  "articleAttributes c classes = [(''id'', ''comment-'' @ uid c), (''class'', classes), (''uid'', uid c)]"

definition quoted :: "string \<Rightarrow> string" where
  "quoted s = [CHR 0x27] @ s @ [CHR 0x27]"

definition replyOnclick :: "comment \<Rightarrow> string" where
  "replyOnclick c =
     ''return addComment.moveForm('' @ quoted (''comment-'' @ uid c) @ '', '' @ quoted ''comment-form''
       @ '', '' @ quoted (uid c) @ '', '' @ quoted (commenterName c) @ '')''"

text \<open>
  The callback of the \<open>forEach\<close> of line 463 for one comment: \<open>componentComment\<close> is the
  content of \<open>templates/component_comment.html\<close>, \<open>commentList\<close> the children of the list
  built so far. \<open>None\<close> is the \<open>TypeError\<close> of a missing element; in the last line it is
  the \<open>null\<close> that \<open>querySelector\<close> returns for the id of the parent.
\<close>

definition renderComment :: "node list \<Rightarrow> comment \<Rightarrow> node list \<Rightarrow> node list option" where
  "renderComment componentComment c commentList =
     do {
       a1 \<leftarrow> modifyFirst (hasClass ''comment-author'')
               (\<lambda>e rest. setInnerHTML (Text (commenterName c) # childNodes e) e # rest) componentComment;
       a2 \<leftarrow> modifyFirst (hasClass ''comment-link'')
               (\<lambda>e rest. setAttribute ''href'' (''#comment-'' @ uid c) e # rest) a1;
       a3 \<leftarrow> modifyFirst (hasClass ''comment-link'')
               (\<lambda>e rest. setInnerHTML [Text ('' - '' @ postedAt c)] e # rest) a2;
       a4 \<leftarrow> modifyFirst (hasClass ''comment-text'')
               (\<lambda>e rest. setInnerHTML (message c) e # rest) a3;
       if \<not> truthyString (replying_to_uid c)
       then do {
         a5 \<leftarrow> modifyFirst (hasClass ''comment-reply-link'')
                 (\<lambda>e rest. setInnerHTML [Text (''[ Reply to '' @ commenterName c @ '' ]'')] e # rest) a4;
         a6 \<leftarrow> modifyFirst (hasClass ''comment-reply-link'')
                 (\<lambda>e rest. setAttribute ''onclick'' (replyOnclick c) e # rest) a5;
         Some (commentList @ [Element ''article'' (articleAttributes c ''comment-article'') a6])
       }
       else do {
         a5 \<leftarrow> modifyFirst (hasClass ''comment-reply-link'') (\<lambda>e rest. rest) a4;
         modifyFirst (hasId (''comment-'' @ the (replying_to_uid c)))
           (\<lambda>parent rest. parent # Element ''article'' (articleAttributes c ''comment-article nested'') a5 # rest)
           commentList
       }
     }"

fun renderComments :: "node list \<Rightarrow> comment list \<Rightarrow> node list \<Rightarrow> node list option" where
  "renderComments componentComment [] commentList = Some commentList"
| "renderComments componentComment (c # cs) commentList =
     (case renderComment componentComment c commentList of
        None \<Rightarrow> None
      | Some commentList' \<Rightarrow> renderComments componentComment cs commentList')"

text \<open>
  Lines 460 to 495 for the comments of one post, in the order of the listing: the list is
  built and appended to the element \<open>comments-section\<close> of the post. Nothing between the
  callback and the caller of \<open>build\<close> catches the error.
\<close>

definition commentsSection :: "node list \<Rightarrow> comment list \<Rightarrow> node list \<Rightarrow> error + node list" where
  "commentsSection componentComment comments post =
     (case renderComments componentComment comments [Element ''h2'' [] [Text ''Comments'']] of
        None \<Rightarrow> Inl TypeError
      | Some commentList \<Rightarrow>
          (case modifyFirst (hasId ''comments-section'')
                  (\<lambda>e rest. appendChild (Element ''div'' [(''id'', ''comment-list'')] commentList) e # rest) post of
             None \<Rightarrow> Inl TypeError
           | Some post' \<Rightarrow> Inr post'))"

section \<open>Notions used in the proofs\<close>

text \<open>A predicate that looks at the tag and the attributes of an element only.\<close>

definition shallow :: "(node \<Rightarrow> bool) \<Rightarrow> bool" where
  "shallow P = (\<forall>t a cs cs'. P (Element t a cs) = P (Element t a cs'))"

text \<open>The date of a collected page, for pages that have one.\<close>

definition pageDate :: "page \<Rightarrow> nat" where
  "pageDate p = the (date (fst p))"

definition dated :: "page \<Rightarrow> bool" where
  "dated p = (date (fst p) \<noteq> None)"

text \<open>
  The paths written outside and inside \<open>public/blog/\<close>, in the order of the writes. Inside
  \<open>blogIndex\<close> the former are the index pages and the latter are the posts.
\<close>

fun indexPagesWritten :: "event list \<Rightarrow> string list" where
  "indexPagesWritten [] = []"
| "indexPagesWritten (WriteFile p f # es) =
     (if startsWith p ''public/blog/'' then indexPagesWritten es else p # indexPagesWritten es)"
| "indexPagesWritten (e # es) = indexPagesWritten es"

fun postsWritten :: "event list \<Rightarrow> event list" where
  "postsWritten [] = []"
| "postsWritten (WriteFile p f # es) =
     (if startsWith p ''public/blog/'' then WriteFile p f # postsWritten es else postsWritten es)"
| "postsWritten (e # es) = postsWritten es"

text \<open>
  The effects of a page transform and of the aggregation proper: a page written or a line
  logged, as opposed to the entry into \<open>blogIndex\<close> and the write of \<open>CNAME\<close>.
\<close>

fun ordinary :: "event \<Rightarrow> bool" where
  "ordinary (WriteFile p (Html dn h)) = True"
| "ordinary (WriteFile p (Raw t)) = False"
| "ordinary (ConsoleLog m) = True"
| "ordinary (Enter f) = False"
| "ordinary (Joined d) = False"

text \<open>What a completed run of the loop leaves behind.\<close>

definition loopResult :: "page list \<Rightarrow> nat \<Rightarrow> nat \<Rightarrow> nat \<Rightarrow> nat \<Rightarrow> state \<Rightarrow> state \<Rightarrow> bool" where
  "loopResult orig tot p pc i s s' =
     (blogPages s' = [] \<and>
      (\<forall>j < length (blogPages s). blogPost orig tot (i + j) (blogPages s ! j) \<noteq> None) \<and>
      (\<exists>evs. out s' = out s @ evs \<and> list_all ordinary evs \<and>
         indexPagesWritten evs = map indexPath [pc ..< pc + ceilDiv (length (blogPages s)) p] \<and>
         postsWritten evs =
           map (\<lambda>j. snd (the (blogPost orig tot (i + j) (blogPages s ! j)))) [0 ..< length (blogPages s)]))"





text \<open>A short name for each effect, to show a run at a glance.\<close>

fun summary :: "event \<Rightarrow> string" where
  "summary (WriteFile p f) = ''write '' @ p"
| "summary (ConsoleLog m) = ''log''"
| "summary (Enter f) = ''enter '' @ f"
| "summary (Joined d) = ''joined '' @ d"

text \<open>
  The directories that a walk goes through, each when its walk ends: those below a
  directory in the order of the listing, every one after the directories below it, and the
  directory itself last.
\<close>

fun subdirectories :: "string \<Rightarrow> entry list \<Rightarrow> string list" where
  "subdirectories directoryPath [] = []"
| "subdirectories directoryPath (File element c # rest) = subdirectories directoryPath rest"
| "subdirectories directoryPath (Directory element sub # rest) =
     subdirectories (directoryPath @ ''/'' @ element) sub @ [directoryPath @ ''/'' @ element]
       @ subdirectories directoryPath rest"


text \<open>
  What the walk of a directory does at its end, without the effects of \<open>blogIndex\<close> itself:
  the join returns, \<open>blogIndex\<close> is entered, \<open>CNAME\<close> is written.
\<close>

definition aggregation :: "string \<Rightarrow> event list" where
  "aggregation directoryPath = [Joined directoryPath, Enter ''blogIndex'', cname]"

definition marker :: "event \<Rightarrow> bool" where
  "marker e = (\<not> ordinary e)"

text \<open>The transforms that the loop of \<open>processDirectory\<close> starts for the files of a listing.\<close>

fun started :: "string \<Rightarrow> entry list \<Rightarrow> (string \<times> content) list" where
  "started directoryPath [] = []"
| "started directoryPath (File element c # rest) =
     (if startsWith element ''.'' then started directoryPath rest
      else (directoryPath @ ''/'' @ element, c) # started directoryPath rest)"
| "started directoryPath (Directory element sub # rest) = started directoryPath rest"

text \<open>
  The transforms of the files in the directories below a directory, each with the path of
  the directory that starts it.
\<close>

fun transformsBelow :: "string \<Rightarrow> entry list \<Rightarrow> (string \<times> string \<times> content) list" where
  "transformsBelow directoryPath [] = []"
| "transformsBelow directoryPath (File element c # rest) = transformsBelow directoryPath rest"
| "transformsBelow directoryPath (Directory element sub # rest) =
     map (Pair (directoryPath @ ''/'' @ element)) (started (directoryPath @ ''/'' @ element) sub)
       @ transformsBelow (directoryPath @ ''/'' @ element) sub @ transformsBelow directoryPath rest"


text \<open>The state in which a step ends.\<close>

fun stateOf :: "'a outcome \<Rightarrow> state" where
  "stateOf (Ok x s) = s"
| "stateOf (Threw e s) = s"

text \<open>The effects of one transform; they do not depend on the state in which it runs.\<close>

definition pageEffects :: "env \<Rightarrow> string \<Rightarrow> content \<Rightarrow> event list" where
  "pageEffects E pagePath c = out (stateOf (processPage E pagePath c \<lparr>blogPages = [], out = []\<rparr>))"

text \<open>
  From one list of promises to a later one, with the effects in between: a promise is still
  listed as it was, or it was pending and its transform has run.
\<close>

definition progress :: "env \<Rightarrow> promises \<Rightarrow> promises \<Rightarrow> event list \<Rightarrow> bool" where
  "progress E running running' evs =
     (\<forall>x \<in> set running. x \<in> set running' \<or>
        (\<exists>d pagePath c. x = (d, Pending pagePath c) \<and> set (pageEffects E pagePath c) \<subseteq> set evs))"






text \<open>The promise of a transform that the walk of a directory has started.\<close>

definition own :: "string \<Rightarrow> string \<times> content \<Rightarrow> string \<times> promise" where
  "own directoryPath t = (directoryPath, Pending (fst t) (snd t))"

text \<open>
  Among some effects, those of a transform stand before the return of the join of the
  directory that started it, which the entry into \<open>blogIndex\<close> follows at once.
\<close>

definition precedes :: "env \<Rightarrow> event list \<Rightarrow> string \<times> string \<times> content \<Rightarrow> bool" where
  "precedes E evs t =
     (case t of (d, pagePath, c) \<Rightarrow>
        \<exists>pre post. evs = pre @ Joined d # Enter ''blogIndex'' # post \<and> set (pageEffects E pagePath c) \<subseteq> set pre)"

text \<open>What the loop over the entries of a directory leaves behind when it ends normally.\<close>

definition looped :: "env \<Rightarrow> string \<Rightarrow> entry list \<Rightarrow> promises \<Rightarrow> promises \<Rightarrow> event list \<Rightarrow> bool" where
  "looped E dir es running running' evs =
     (filter marker evs = concat (map aggregation (subdirectories dir es)) \<and>
      progress E (running @ map (own dir) (started dir es)) running' evs \<and>
      (\<forall>t \<in> set (transformsBelow dir es). precedes E evs t))"

text \<open>A transform that ends with a push to \<open>blogPages\<close> when it succeeds.\<close>

definition collects :: "string \<times> content \<Rightarrow> bool" where
  "collects t = (publish (attributes (snd t)) \<noteq> Some ''no'' \<and> targetPathOf (fst t) = ''blog'')"

definition pageNames :: "page list \<Rightarrow> string list" where
  "pageNames ps = map (\<lambda>p. snd (snd p)) ps"

text \<open>A run at a glance: its effects in their order and how it ends.\<close>

fun trace :: "unit outcome option \<Rightarrow> string list" where
  "trace None = [''no return'']"
| "trace (Some (Ok u s)) = map summary (out s) @ [''return'']"
| "trace (Some (Threw e s)) = map summary (out s) @ [''throw'']"

section \<open>Example inputs\<close>

definition exampleTemplate :: document where
  "exampleTemplate =
     \<lparr>doctype = Some ''html'', docTitle = None,
      nodes = [Element ''html'' []
                [Element ''head'' [] [],
                 Element ''body'' [] [Element ''div'' [(''id'', ''page-content'')] []]]]\<rparr>"

text \<open>A template without the insertion point, for pages written in HTML only.\<close>

definition plainTemplate :: document where
  "plainTemplate =
     \<lparr>doctype = Some ''html'', docTitle = None,
      nodes = [Element ''html'' []
                [Element ''head'' [] [],
                 Element ''body'' [] [Element ''p'' [] [Text ''About'']]]]\<rparr>"

text \<open>The template of the index pages, with the five pagination elements.\<close>

definition blogIndexTemplate :: document where
  "blogIndexTemplate =
     \<lparr>doctype = Some ''html'', docTitle = None,
      nodes = [Element ''html'' []
                [Element ''head'' [] [],
                 Element ''body'' []
                   [Element ''div'' [(''id'', ''page-content'')] [],
                    Element ''span'' [(''id'', ''paginationBegin'')] [Text ''<<''],
                    Element ''span'' [(''id'', ''paginationBack'')] [Text ''<''],
                    Element ''span'' [(''id'', ''paginationPages'')] [],
                    Element ''span'' [(''id'', ''paginationForward'')] [Text ''>''],
                    Element ''span'' [(''id'', ''paginationEnd'')] [Text ''>>'']]]]\<rparr>"

definition exampleEnv :: env where
  "exampleEnv =
     \<lparr>templateFiles = (\<lambda>p. if p = ''templates/default.html'' then Some exampleTemplate
                             else if p = ''templates/plain.html'' then Some plainTemplate
                             else if p = ''templates/blogIndex.html'' then Some blogIndexTemplate
                             else None),
      componentHead = Some [Element ''meta'' [(''charset'', ''utf-8'')] []],
      postsPerPage = 2\<rparr>"

definition emptyState :: state where
  "emptyState = \<lparr>blogPages = [], out = []\<rparr>"

definition noFrontmatter :: frontmatter where
  "noFrontmatter = \<lparr>publish = None, template = None, date = None, title = None\<rparr>"

definition datedPost :: content where
  "datedPost =
     \<lparr>attributes = noFrontmatter\<lparr>date := Some 20230105\<rparr>,
      body = [Element ''h2'' [] [Text ''Hello''], Element ''p'' [] [Text ''First post'']]\<rparr>"

definition draftPage :: content where
  "draftPage =
     \<lparr>attributes = noFrontmatter\<lparr>publish := Some ''no'', date := Some 20230105\<rparr>,
      body = [Element ''h2'' [] [Text ''Draft'']]\<rparr>"

text \<open>Two dated pages on the template without the insertion point.\<close>

definition datedNote :: content where
  "datedNote =
     \<lparr>attributes = noFrontmatter\<lparr>template := Some ''plain'', date := Some 20230105\<rparr>,
      body = [Element ''p'' [] [Text ''No heading here'']]\<rparr>"

definition datedArticle :: content where
  "datedArticle =
     \<lparr>attributes = noFrontmatter\<lparr>template := Some ''plain'', date := Some 20230105\<rparr>,
      body = [Element ''h2'' [] [Text ''Article''], Element ''p'' [] [Text ''Text'']]\<rparr>"

text \<open>A blog post: a heading, a teaser, the link to the rest, and the rest.\<close>

definition blogPostOf :: "string \<Rightarrow> nat \<Rightarrow> content" where
  "blogPostOf heading d =
     \<lparr>attributes = noFrontmatter\<lparr>date := Some d\<rparr>,
      body = [Element ''h2'' [] [Text heading],
              Element ''p'' [] [Text ''Teaser''],
              Element ''p'' [] [Element ''a'' [(''class'', ''readmore''), (''href'', ''/'')] [Text ''Read more'']],
              Element ''p'' [] [Text ''Rest'']]\<rparr>"

text \<open>The document that \<open>processPage\<close> collects for such a post, and three of them collected.\<close>

definition collected :: "string \<Rightarrow> string \<Rightarrow> nat \<Rightarrow> page" where
  "collected name heading d =
     (attributes (blogPostOf heading d),
      \<lparr>doctype = Some ''html'', docTitle = None,
       nodes = [Element ''html'' []
                 [Element ''head'' [] [Element ''meta'' [(''charset'', ''utf-8'')] []],
                  Element ''body'' []
                    [Element ''div'' [(''id'', ''page-content'')]
                       [Element ''h2'' [] [Text heading],
                        dateSpan d,
                        Element ''p'' [] [Text ''Teaser''],
                        Element ''p'' [] [Element ''a'' [(''class'', ''readmore''), (''href'', ''/'')] [Text ''Read more'']],
                        Element ''p'' [] [Text ''Rest'']]]]]\<rparr>,
      name)"

definition threePosts :: state where
  "threePosts =
     \<lparr>blogPages = [collected ''a'' ''A'' 20230101, collected ''b'' ''B'' 20230101,
                   collected ''c'' ''C'' 20230102],
      out = []\<rparr>"

text \<open>Completion in the order of the start, and with the second page of the blog first.\<close>

definition inOrder :: schedule where
  "inOrder = (\<lambda>directoryPath. [])"

definition secondFirst :: schedule where
  "secondFirst = (\<lambda>directoryPath. if directoryPath = ''pages/blog'' then [1] else [])"

text \<open>
  No transform completes before the join of its directory; the first pending transform
  completes while the walk of the blog waits for \<open>lstat\<close> of its first entry; and it
  completes while \<open>blogIndex\<close> of the blog waits for the end of the write of its first post.
\<close>

definition atTheJoin :: interleaving where
  "atTheJoin = \<lparr>atEntries = (\<lambda>directoryPath. []), inBlogIndex = (\<lambda>directoryPath. [])\<rparr>"

definition duringTheBlog :: interleaving where
  "duringTheBlog =
     \<lparr>atEntries = (\<lambda>directoryPath. if directoryPath = ''pages/blog'' then [[0]] else []),
      inBlogIndex = (\<lambda>directoryPath. [])\<rparr>"

definition duringBlogIndex :: interleaving where
  "duringBlogIndex =
     \<lparr>atEntries = (\<lambda>directoryPath. []),
      inBlogIndex = (\<lambda>directoryPath. if directoryPath = ''pages/blog'' then [[], [], [0]] else [])\<rparr>"

definition nowPage :: content where
  "nowPage = \<lparr>attributes = noFrontmatter, body = [Element ''h1'' [] [Text ''Now'']]\<rparr>"

text \<open>A site with one post and a page beside the blog; the listing shows the directory first.\<close>

definition smallSite :: "entry list" where
  "smallSite = [Directory ''blog'' [File ''a.md'' (blogPostOf ''A'' 20230101)], File ''now.md'' nowPage]"

text \<open>A site whose listing shows a page before the blog.\<close>

definition aboutPage :: content where
  "aboutPage = \<lparr>attributes = noFrontmatter, body = [Element ''h1'' [] [Text ''About'']]\<rparr>"

definition earlySite :: "entry list" where
  "earlySite = [File ''about.md'' aboutPage, Directory ''blog'' [File ''a.md'' (blogPostOf ''A'' 20230101)]]"

text \<open>Two posts of the same day.\<close>

definition sameDayPosts :: "entry list" where
  "sameDayPosts = [File ''a.md'' (blogPostOf ''A'' 20230101), File ''b.md'' (blogPostOf ''B'' 20230101)]"

definition sameDaySite :: "entry list" where
  "sameDaySite = [Directory ''blog'' sameDayPosts]"

text \<open>Two posts, the first with a template that does not exist.\<close>

definition brokenPost :: content where
  "brokenPost =
     \<lparr>attributes = noFrontmatter\<lparr>template := Some ''missing'', date := Some 20230102\<rparr>,
      body = body (blogPostOf ''A'' 20230102)\<rparr>"

definition brokenPosts :: "entry list" where
  "brokenPosts = [File ''a.md'' brokenPost, File ''b.md'' (blogPostOf ''B'' 20230101)]"

definition brokenSite :: "entry list" where
  "brokenSite = [Directory ''blog'' brokenPosts]"

text \<open>A comment template, a comment, a reply to it and a reply to a comment that is not there.\<close>

definition componentCommentExample :: "node list" where
  "componentCommentExample =
     [Element ''span'' [(''class'', ''comment-author'')] [],
      Element ''a'' [(''class'', ''comment-link'')] [],
      Element ''div'' [(''class'', ''comment-text'')] [],
      Element ''a'' [(''class'', ''comment-reply-link'')] []]"

definition firstComment :: comment where
  "firstComment =
     \<lparr>uid = ''c1'', commenterName = ''Ann'', postedAt = ''January 7, 2023 at 9:15 AM'',
      message = [Element ''p'' [] [Text ''Nice post'']], replying_to_uid = None\<rparr>"

definition replyToFirst :: comment where
  "replyToFirst =
     \<lparr>uid = ''c2'', commenterName = ''Bob'', postedAt = ''January 8, 2023 at 10:00 AM'',
      message = [Element ''p'' [] [Text ''Agreed'']], replying_to_uid = Some ''c1''\<rparr>"

definition replyToNobody :: comment where
  "replyToNobody =
     \<lparr>uid = ''c3'', commenterName = ''Cy'', postedAt = ''January 9, 2023 at 11:30 AM'',
      message = [Element ''p'' [] [Text ''To whom?'']], replying_to_uid = Some ''c9''\<rparr>"

definition postWithComments :: "node list" where
  "postWithComments =
     [Element ''html'' []
        [Element ''body'' []
           [Element ''div'' [(''id'', ''page-content'')]
              [Element ''div'' [(''id'', ''post-section'')] [],
               Element ''div'' [(''id'', ''comments-section'')] []]]]]"

section \<open>Facts about decimal numerals and the date line\<close>

lemma digit_facts:
  "\<forall>n \<in> set (upt 0 10).
     isDigit (digitChar n) \<and> digitVal (digitChar n) = n \<and> (digitChar n = CHR ''0'' \<longleftrightarrow> n = 0)"
  by (simp add: upt_rec isDigit_def digitVal_def digitChar_def)

lemma isDigit_digitChar: "n < 10 \<Longrightarrow> isDigit (digitChar n)"
  using digit_facts by simp



lemma toString_ge10: "10 \<le> n \<Longrightarrow> toString n = toString (n div 10) @ [digitChar (n mod 10)]"
  by (simp add: toString.simps[of n])

lemma toString_digit: "n < 10 \<Longrightarrow> toString n = [digitChar n]"
  by (simp add: toString.simps[of n])






section \<open>Facts about the document operations\<close>

lemma elements_Cons: "elements (n # ns) = descendants n @ elements ns"
  by (simp add: elements_def)

lemma elements_Nil: "elements [] = []"
  by (simp add: elements_def)

lemma elements_append: "elements (xs @ ys) = elements xs @ elements ys"
  by (simp add: elements_def)

lemma descendants_Element: "descendants (Element t a cs) = Element t a cs # elements cs"
  by (simp add: elements_def)

declare descendants.simps(2) [simp del]



lemma shallow_hasClass: "shallow (hasClass c)"
  by (simp add: shallow_def hasClass_def)


lemma modifyFirst_None_iff:
  "modifyFirst P f ns = None \<longleftrightarrow> (\<forall>n \<in> set (elements ns). \<not> P n)"
  by (induction P f ns rule: modifyFirst.induct)
     (auto simp: elements_Cons elements_Nil descendants_Element split: option.splits)


lemma getElementsByTagName_Nil_iff:
  "getElementsByTagName t ns = [] \<longleftrightarrow> (\<forall>n \<in> set (elements ns). \<not> hasTag t n)"
  by (simp add: getElementsByTagName_def filter_empty_conv)



lemma modifyFirst_setInnerHTML_tags:
  "modifyFirst Q (\<lambda>e rest. setInnerHTML new e # rest) ns = Some ns'
   \<Longrightarrow> tagName ` set (elements ns') \<subseteq> tagName ` set (elements ns) \<union> tagName ` set (elements new)"
proof (induction Q "\<lambda>(e::node) rest. setInnerHTML new e # rest" ns arbitrary: ns' rule: modifyFirst.induct)
  case (1 P)
  then show ?case by simp
next
  case (2 P s ns)
  then obtain ns'' where m: "modifyFirst P (\<lambda>e rest. setInnerHTML new e # rest) ns = Some ns''"
    and ns': "ns' = Text s # ns''"
    by auto
  from 2(1)[OF m] show ?case
    unfolding ns' by (auto simp: elements_Cons)
next
  case (3 P t a cs ns)
  show ?case
  proof (cases "P (Element t a cs)")
    case True
    with 3(3) have "ns' = Element t a new # ns" by simp
    then show ?thesis by (auto simp: elements_Cons descendants_Element)
  next
    case False
    show ?thesis
    proof (cases "modifyFirst P (\<lambda>e rest. setInnerHTML new e # rest) cs")
      case None
      then obtain ns'' where m: "modifyFirst P (\<lambda>e rest. setInnerHTML new e # rest) ns = Some ns''"
        and ns': "ns' = Element t a cs # ns''"
        using 3(3) False by auto
      from 3(2)[OF False None m] show ?thesis
        unfolding ns' by (auto simp: elements_Cons descendants_Element)
    next
      case (Some cs')
      then have ns': "ns' = Element t a cs' # ns" using 3(3) False by auto
      from 3(1)[OF False Some] show ?thesis
        unfolding ns' by (auto simp: elements_Cons descendants_Element)
    qed
  qed
qed

lemma elements_are_elements: "n \<in> set (elements ns) \<Longrightarrow> isElement n"
proof -
  have d: "\<And>m n. n \<in> set (descendants m) \<Longrightarrow> isElement n"
  proof -
    fix m n show "n \<in> set (descendants m) \<Longrightarrow> isElement n"
      by (induction m arbitrary: n) (auto simp: descendants_Element elements_def)
  qed
  show "n \<in> set (elements ns) \<Longrightarrow> isElement n"
    by (auto simp: elements_def dest: d)
qed

lemma no_tag_iff: "getElementsByTagName t ns = [] \<longleftrightarrow> t \<notin> tagName ` set (elements ns)"
  by (auto simp: getElementsByTagName_Nil_iff hasTag_def dest: elements_are_elements)

lemma setInnerHTML_keeps_tag_absent:
  assumes "modifyFirst Q (\<lambda>e rest. setInnerHTML new e # rest) ns = Some ns'"
    and "getElementsByTagName t ns = []" and "getElementsByTagName t new = []"
  shows "getElementsByTagName t ns' = []"
  using modifyFirst_setInnerHTML_tags[OF assms(1)] assms(2,3) by (auto simp: no_tag_iff)

lemma modifyFirst_Some_if: "getElementsByTagName t ns \<noteq> [] \<Longrightarrow> \<exists>ns'. modifyFirst (hasTag t) f ns = Some ns'"
  using modifyFirst_None_iff[of "hasTag t" f ns] by (auto simp: getElementsByTagName_Nil_iff)

lemma insertDate_None: "getElementsByTagName ''h2'' ns = [] \<Longrightarrow> insertDate d ns = None"
  by (simp add: insertDate_def modifyFirst_None_iff getElementsByTagName_Nil_iff)

section \<open>Facts about the sort\<close>

lemma compareFn_dated: "dated a \<Longrightarrow> dated b \<Longrightarrow> compareFn a b \<le> 0 \<longleftrightarrow> pageDate b \<le> pageDate a"
  by (auto simp: compareFn_def dated_def pageDate_def)

lemma mset_insertPage: "mset (insertPage a bs) = add_mset a (mset bs)"
  by (induction bs) auto

lemma mset_sortPages: "mset (sortPages ps) = mset ps"
  by (induction ps) (auto simp: sortPages_def mset_insertPage)

lemma set_sortPages: "set (sortPages ps) = set ps"
  using mset_sortPages[of ps] by (metis set_mset_mset)

lemma set_insertPage: "set (insertPage a bs) = insert a (set bs)"
  using mset_insertPage[of a bs] by (metis set_mset_mset set_mset_add_mset_insert)

lemma sorted_insertPage:
  assumes "dated a" "\<forall>b \<in> set bs. dated b" "sorted_wrt (\<lambda>x y. pageDate y \<le> pageDate x) bs"
  shows "sorted_wrt (\<lambda>x y. pageDate y \<le> pageDate x) (insertPage a bs)"
  using assms
proof (induction bs)
  case Nil
  then show ?case by simp
next
  case (Cons b bs)
  show ?case
  proof (cases "compareFn a b \<le> 0")
    case True
    then have "pageDate b \<le> pageDate a" using Cons.prems by (simp add: compareFn_dated)
    then show ?thesis using True Cons.prems by auto
  next
    case False
    then have "pageDate a \<le> pageDate b" using Cons.prems by (simp add: compareFn_dated)
    then show ?thesis using False Cons by (auto simp: set_insertPage)
  qed
qed

lemma sorted_sortPages:
  "\<forall>p \<in> set ps. dated p \<Longrightarrow> sorted_wrt (\<lambda>x y. pageDate y \<le> pageDate x) (sortPages ps)"
proof (induction ps)
  case Nil
  then show ?case by (simp add: sortPages_def)
next
  case (Cons a ps)
  have "sorted_wrt (\<lambda>x y. pageDate y \<le> pageDate x) (insertPage a (sortPages ps))"
    using Cons by (intro sorted_insertPage) (auto simp: set_sortPages)
  then show ?case by (simp add: sortPages_def)
qed

lemma filter_insertPage:
  assumes "dated a" "\<forall>b \<in> set bs. dated b"
  shows "filter (\<lambda>p. pageDate p = d) (insertPage a bs) = filter (\<lambda>p. pageDate p = d) (a # bs)"
  using assms
proof (induction bs)
  case Nil
  then show ?case by simp
next
  case (Cons b bs)
  show ?case
  proof (cases "compareFn a b \<le> 0")
    case True
    then show ?thesis by simp
  next
    case False
    then have "pageDate b \<noteq> pageDate a" using Cons.prems by (auto simp: compareFn_dated)
    then show ?thesis using False Cons by auto
  qed
qed

lemma stable_sortPages:
  "\<forall>p \<in> set ps. dated p \<Longrightarrow>
   filter (\<lambda>p. pageDate p = d) (sortPages ps) = filter (\<lambda>p. pageDate p = d) ps"
proof (induction ps)
  case Nil
  then show ?case by (simp add: sortPages_def)
next
  case (Cons a ps)
  have "filter (\<lambda>p. pageDate p = d) (insertPage a (sortPages ps))
        = filter (\<lambda>p. pageDate p = d) (a # sortPages ps)"
    using Cons.prems by (intro filter_insertPage) (auto simp: set_sortPages)
  then show ?case using Cons by (simp add: sortPages_def)
qed

lemma length_sortPages: "length (sortPages ps) = length ps"
  using mset_sortPages[of ps] by (metis size_mset)

section \<open>Facts about the aggregation loop\<close>

lemma startsWith_append: "startsWith (p @ s) p"
  by (induction p) auto

lemma toString_head_digit: "\<exists>c cs. toString n = c # cs \<and> isDigit c"
proof (induction n rule: toString.induct)
  case (1 n)
  show ?case
  proof (cases "n < 10")
    case True
    then show ?thesis by (simp add: toString_digit isDigit_digitChar)
  next
    case False
    with 1 obtain c cs where "toString (n div 10) = c # cs" "isDigit c" by auto
    then show ?thesis using False by (simp add: toString_ge10)
  qed
qed

lemma indexPath_not_post: "\<not> startsWith (indexPath pc) ''public/blog/''"
proof -
  obtain c cs where t: "toString pc = c # cs" and d: "isDigit c"
    using toString_head_digit by blast
  have "c \<noteq> CHR ''b''" using d by (auto simp: isDigit_def)
  then show ?thesis by (simp add: indexPath_def t)
qed

lemma postPath_is_post: "startsWith (postPath name) ''public/blog/''"
  using startsWith_append[of "''public/blog/''" "name @ ''.html''"] by (simp add: postPath_def)

lemma indexPagesWritten_append: "indexPagesWritten (xs @ ys) = indexPagesWritten xs @ indexPagesWritten ys"
  by (induction xs rule: indexPagesWritten.induct) auto

lemma postsWritten_append: "postsWritten (xs @ ys) = postsWritten xs @ postsWritten ys"
  by (induction xs rule: postsWritten.induct) auto

lemma finalHtml_Html: "finalHtml d = Some f \<Longrightarrow> \<exists>dn h. f = Html dn h"
  by (auto simp: finalHtml_def split: option.splits list.splits)

lemma blogPost_event:
  "blogPost orig tot i page = Some (ex, w) \<Longrightarrow> \<exists>dn h. w = WriteFile (postPath (snd (snd page))) (Html dn h)"
  by (auto simp: blogPost_def split: Option.bind_splits dest: finalHtml_Html)

text \<open>The write of the post at place j of a batch that starts at page index i.\<close>

lemma forPages_spec:
  "forPages orig tot batch agg i s = Ok (agg', i') s' \<Longrightarrow>
     i' = i + length batch \<and> blogPages s' = blogPages s \<and>
     (\<forall>j < length batch. blogPost orig tot (i + j) (batch ! j) \<noteq> None) \<and>
     out s' = out s @ map (\<lambda>j. snd (the (blogPost orig tot (i + j) (batch ! j)))) [0 ..< length batch]"
proof (induction batch arbitrary: agg i s)
  case Nil
  then show ?case by simp
next
  case (Cons page rest)
  from Cons.prems obtain ex w where bp: "blogPost orig tot i page = Some (ex, w)"
    and rec: "forPages orig tot rest (agg @ ex) (i + 1) (emit w s) = Ok (agg', i') s'"
    by (auto split: option.splits)
  note IH = Cons.IH[OF rec]
  have 1: "i' = i + length (page # rest)" using IH by simp
  have 2: "blogPages s' = blogPages s" using IH by (simp add: emit_def)
  have 3: "\<forall>j < length (page # rest). blogPost orig tot (i + j) ((page # rest) ! j) \<noteq> None"
  proof (intro allI impI)
    fix j assume "j < length (page # rest)"
    then show "blogPost orig tot (i + j) ((page # rest) ! j) \<noteq> None"
      using bp IH by (cases j) auto
  qed
  have "map (\<lambda>j. snd (the (blogPost orig tot (i + j) ((page # rest) ! j)))) [0 ..< length (page # rest)]
        = w # map (\<lambda>j. snd (the (blogPost orig tot (i + 1 + j) (rest ! j)))) [0 ..< length rest]"
  proof -
    have u: "[0 ..< length (page # rest)] = 0 # map Suc [0 ..< length rest]"
      by (simp add: upt_conv_Cons map_Suc_upt del: upt_Suc)
    show ?thesis unfolding u using bp by (simp add: o_def)
  qed
  then have 4: "out s' = out s @ map (\<lambda>j. snd (the (blogPost orig tot (i + j) ((page # rest) ! j)))) [0 ..< length (page # rest)]"
    using IH by (simp add: emit_def)
  show ?case using 1 2 3 4 by blast
qed


lemma posts_only:
  "\<forall>e \<in> set es. \<exists>name f. e = WriteFile (postPath name) f \<Longrightarrow>
   indexPagesWritten es = [] \<and> postsWritten es = es"
  by (induction es) (auto simp: postPath_is_post)

lemma post_events_shape:
  assumes "\<forall>j < n. blogPost orig tot (i + j) (ps ! j) \<noteq> None"
  shows "\<forall>e \<in> set (map (\<lambda>j. snd (the (blogPost orig tot (i + j) (ps ! j)))) [0 ..< n]).
           \<exists>name f. e = WriteFile (postPath name) f \<and> ordinary e"
proof
  fix e assume "e \<in> set (map (\<lambda>j. snd (the (blogPost orig tot (i + j) (ps ! j)))) [0 ..< n])"
  then obtain j where j: "j < n" and e: "e = snd (the (blogPost orig tot (i + j) (ps ! j)))"
    by auto
  from assms j obtain ex w where "blogPost orig tot (i + j) (ps ! j) = Some (ex, w)"
    by fastforce
  then obtain dn h where "e = WriteFile (postPath (snd (snd (ps ! j)))) (Html dn h)"
    using blogPost_event e by fastforce
  then show "\<exists>name f. e = WriteFile (postPath name) f \<and> ordinary e"
    by auto
qed

lemma indexPage_spec:
  assumes "indexPage E orig tot ti pc i s = Ok i' s'"
  shows "i' = i + length (take (postsPerPage E) (blogPages s)) \<and>
         blogPages s' = drop (postsPerPage E) (blogPages s) \<and>
         (\<forall>j < length (take (postsPerPage E) (blogPages s)).
            blogPost orig tot (i + j) (take (postsPerPage E) (blogPages s) ! j) \<noteq> None) \<and>
         (\<exists>f. ordinary (WriteFile (indexPath pc) f) \<and> out s' = out s
               @ map (\<lambda>j. snd (the (blogPost orig tot (i + j) (take (postsPerPage E) (blogPages s) ! j))))
                   [0 ..< length (take (postsPerPage E) (blogPages s))]
               @ [WriteFile (indexPath pc) f])"
proof -
  let ?batch = "take (postsPerPage E) (blogPages s)"
  let ?s1 = "s\<lparr>blogPages := drop (postsPerPage E) (blogPages s)\<rparr>"
  from assms obtain agg s2 f ns where fp: "forPages orig tot ?batch [] i ?s1 = Ok (agg, i') s2"
    and s': "s' = emit (WriteFile (indexPath pc) f) s2"
    and f: "indexDocument agg pc ti ns = Some f"
    by (auto simp: indexPage_def Let_def split: option.splits outcome.splits prod.splits)
  have "ordinary (WriteFile (indexPath pc) f)"
    using f by (auto simp: indexDocument_def split: Option.bind_splits list.splits)
  with forPages_spec[OF fp] s' show ?thesis
    by (auto simp: emit_def)
qed

lemma ceilDiv_pos: "0 < p \<Longrightarrow> 0 < n \<Longrightarrow> ceilDiv n p = Suc ((n - 1) div p)"
proof -
  assume p: "0 < p" and n: "0 < n"
  have a: "n + p - 1 = (n - 1) + p" using n by simp
  have h: "((n - 1) + p) div p = Suc ((n - 1) div p)"
    using p div_add_self2[of p "n - 1"] by simp
  show ?thesis unfolding ceilDiv_def a by (rule h)
qed

lemma ceilDiv_zero: "0 < p \<Longrightarrow> ceilDiv 0 p = 0"
  by (simp add: ceilDiv_def)

lemma ceilDiv_step: "0 < p \<Longrightarrow> 0 < n \<Longrightarrow> ceilDiv n p = Suc (ceilDiv (n - p) p)"
proof -
  assume p: "0 < p" and n: "0 < n"
  show ?thesis
  proof (cases "p \<le> n")
    case True
    define x where "x = n - p + p - 1"
    have e: "n + p - 1 = x + p" unfolding x_def using True p by arith
    have "(x + p) div p = Suc (x div p)"
      using p div_add_self2[of p x] by simp
    then show ?thesis unfolding ceilDiv_def e x_def .
  next
    case False
    then have z: "n - p = 0" and small: "(n - 1) div p = 0" using n by auto
    show ?thesis unfolding z using p n small by (simp only: ceilDiv_pos ceilDiv_zero)
  qed
qed

lemma map_upt_split:
  "k \<le> n \<Longrightarrow> map g [0 ..< n] = map g [0 ..< k] @ map (\<lambda>j. g (k + j)) [0 ..< n - k]"
proof -
  assume "k \<le> n"
  then have "[0 ..< n] = [0 ..< k] @ [k ..< k + (n - k)]"
    by (metis le_add_diff_inverse upt_add_eq_append zero_le)
  moreover have "[k ..< k + (n - k)] = map (\<lambda>j. k + j) [0 ..< n - k]"
    by (simp add: map_add_upt add.commute)
  ultimately show ?thesis by (simp add: o_def)
qed

lemma blogIndexLoop_Nil: "blogPages s = [] \<Longrightarrow> blogIndexLoop E orig tot ti pc i s = Some (Ok () s)"
  by (subst blogIndexLoop.simps) simp

lemma blogIndexLoop_step:
  "blogPages s \<noteq> [] \<Longrightarrow> blogIndexLoop E orig tot ti pc i s =
     (case indexPage E orig tot ti pc i s of
        Threw e s' \<Rightarrow> Some (Threw e s')
      | Ok i' s' \<Rightarrow> blogIndexLoop E orig tot ti (pc + 1) i' s')"
  by (subst blogIndexLoop.simps) simp

lemma upt_head: "[a ..< a + Suc c] = a # [a + 1 ..< a + 1 + c]"
  by (simp add: upt_conv_Cons del: upt_Suc)

lemma map_upt_head: "map g [a ..< a + Suc c] = g a # map g [a + 1 ..< a + 1 + c]"
  by (simp only: upt_head list.map)

lemma blogIndexLoop_spec:
  assumes p: "0 < postsPerPage E"
  shows "\<exists>r. blogIndexLoop E orig tot ti pc i s = Some r \<and>
           (\<forall>s'. r = Ok () s' \<longrightarrow> loopResult orig tot (postsPerPage E) pc i s s')"
proof (induction "length (blogPages s)" arbitrary: s pc i rule: less_induct)
  case less
  let ?p = "postsPerPage E"
  let ?ps = "blogPages s"
  show ?case
  proof (cases "?ps = []")
    case True
    then show ?thesis using p
      by (simp add: blogIndexLoop_Nil loopResult_def ceilDiv_zero)
  next
    case False
    note nonempty = this
    then have n: "0 < length ?ps" by simp
    show ?thesis
    proof (cases "indexPage E orig tot ti pc i s")
      case (Threw e s1)
      then show ?thesis using nonempty by (simp add: blogIndexLoop_step)
    next
      case (Ok i1 s1)
      let ?batch = "take ?p ?ps"
      define k where "k = length ?batch"
      let ?g = "\<lambda>j. snd (the (blogPost orig tot (i + j) (?ps ! j)))"
      from indexPage_spec[OF Ok] obtain f where
        ordf: "ordinary (WriteFile (indexPath pc) f)" and
        i1: "i1 = i + k" and bp1: "blogPages s1 = drop ?p ?ps"
        and some: "\<forall>j < k. blogPost orig tot (i + j) (?batch ! j) \<noteq> None"
        and out1: "out s1 = out s @ map (\<lambda>j. snd (the (blogPost orig tot (i + j) (?batch ! j)))) [0 ..< k]
                     @ [WriteFile (indexPath pc) f]"
        unfolding k_def by blast
      have k: "k = min ?p (length ?ps)" "k \<le> length ?ps" by (simp_all add: k_def)
      have kpos: "0 < k" using p n by (simp add: k_def)
      have len1: "length (blogPages s1) = length ?ps - ?p" using bp1 by simp
      have smaller: "length (blogPages s1) < length ?ps" using len1 p n by simp
      from less[OF smaller, of "pc + 1" i1] obtain r where
        r: "blogIndexLoop E orig tot ti (pc + 1) i1 s1 = Some r"
        and rspec: "\<forall>s'. r = Ok () s' \<longrightarrow> loopResult orig tot ?p (pc + 1) i1 s1 s'"
        by blast
      have run: "blogIndexLoop E orig tot ti pc i s = Some r"
        using nonempty Ok r by (simp add: blogIndexLoop_step)
      have "loopResult orig tot ?p pc i s s'" if rs: "r = Ok () s'" for s'
      proof -
        from rspec rs have lr: "loopResult orig tot ?p (pc + 1) i1 s1 s'" by blast
        then obtain evs where e0: "blogPages s' = []" and ordevs: "list_all ordinary evs"
          and some1: "\<forall>j < length (blogPages s1). blogPost orig tot (i1 + j) (blogPages s1 ! j) \<noteq> None"
          and o: "out s' = out s1 @ evs"
          and ip: "indexPagesWritten evs = map indexPath [pc + 1 ..< pc + 1 + ceilDiv (length (blogPages s1)) ?p]"
          and pw: "postsWritten evs = map (\<lambda>j. snd (the (blogPost orig tot (i1 + j) (blogPages s1 ! j)))) [0 ..< length (blogPages s1)]"
          unfolding loopResult_def by blast
        have batch_nth: "\<And>j. j < k \<Longrightarrow> ?batch ! j = ?ps ! j" by (simp add: k_def)
        have rest_nth: "\<And>j. j < length ?ps - k \<Longrightarrow> blogPages s1 ! j = ?ps ! (k + j)"
          using bp1 by (simp add: k_def min_def split: if_splits)
        have lenk: "length (blogPages s1) = length ?ps - k" using len1 by (simp add: k_def min_def)
        have all_some: "\<forall>j < length ?ps. blogPost orig tot (i + j) (?ps ! j) \<noteq> None"
        proof (intro allI impI)
          fix j assume j: "j < length ?ps"
          show "blogPost orig tot (i + j) (?ps ! j) \<noteq> None"
          proof (cases "j < k")
            case True
            then show ?thesis using some batch_nth by metis
          next
            case False
            then have "j - k < length (blogPages s1)" using j lenk by simp
            then have "blogPost orig tot (i1 + (j - k)) (blogPages s1 ! (j - k)) \<noteq> None"
              using some1 by blast
            moreover have "i1 + (j - k) = i + j" using i1 False by simp
            moreover have "blogPages s1 ! (j - k) = ?ps ! j"
              using rest_nth[of "j - k"] False j by simp
            ultimately show ?thesis by simp
          qed
        qed
        let ?posts = "map (\<lambda>j. snd (the (blogPost orig tot (i + j) (?batch ! j)))) [0 ..< k]"
        have shape': "\<forall>e \<in> set ?posts. \<exists>name f. e = WriteFile (postPath name) f \<and> ordinary e"
          using post_events_shape[OF some] .
        then have shape: "\<forall>e \<in> set ?posts. \<exists>name f. e = WriteFile (postPath name) f"
          by blast
        have ordall: "list_all ordinary (?posts @ [WriteFile (indexPath pc) f] @ evs)"
          using shape' ordf ordevs unfolding list_all_iff by auto
        have po: "indexPagesWritten ?posts = []" "postsWritten ?posts = ?posts"
          using posts_only[OF shape] by simp_all
        have posts_eq: "?posts = map ?g [0 ..< k]"
          by (rule map_cong) (auto simp: batch_nth)
        have po': "indexPagesWritten (map ?g [0 ..< k]) = []" "postsWritten (map ?g [0 ..< k]) = map ?g [0 ..< k]"
          using po unfolding posts_eq by simp_all
        have rest_eq: "map (\<lambda>j. snd (the (blogPost orig tot (i1 + j) (blogPages s1 ! j)))) [0 ..< length (blogPages s1)]
              = map (\<lambda>j. ?g (k + j)) [0 ..< length ?ps - k]"
          unfolding lenk
        proof (rule map_cong[OF refl])
          fix j assume "j \<in> set [0 ..< length ?ps - k]"
          then have j: "j < length ?ps - k" by simp
          have "i1 + j = i + (k + j)" using i1 by simp
          then show "snd (the (blogPost orig tot (i1 + j) (blogPages s1 ! j))) = ?g (k + j)"
            using rest_nth[OF j] by (simp add: add.assoc)
        qed
        have out': "out s' = out s @ (?posts @ [WriteFile (indexPath pc) f] @ evs)"
          using o out1 by simp
        have ipw: "indexPagesWritten (?posts @ [WriteFile (indexPath pc) f] @ evs)
              = map indexPath [pc ..< pc + ceilDiv (length ?ps) ?p]"
        proof -
          have "indexPagesWritten (?posts @ [WriteFile (indexPath pc) f] @ evs)
                = indexPath pc # map indexPath [pc + 1 ..< pc + 1 + ceilDiv (length ?ps - ?p) ?p]"
          proof -
            have w1: "indexPagesWritten [WriteFile (indexPath pc) f] = [indexPath pc]"
              by (simp add: indexPath_not_post)
            show ?thesis
              unfolding indexPagesWritten_append posts_eq po'(1) ip len1 w1 by simp
          qed
          also have "\<dots> = map indexPath [pc ..< pc + ceilDiv (length ?ps) ?p]"
            unfolding ceilDiv_step[OF p n] by (rule map_upt_head[symmetric])
          finally show ?thesis .
        qed
        have psw: "postsWritten (?posts @ [WriteFile (indexPath pc) f] @ evs) = map ?g [0 ..< length ?ps]"
        proof -
          have "postsWritten (?posts @ [WriteFile (indexPath pc) f] @ evs)
                = map ?g [0 ..< k] @ map (\<lambda>j. ?g (k + j)) [0 ..< length ?ps - k]"
          proof -
            have w0: "postsWritten [WriteFile (indexPath pc) f] = []"
              by (simp add: indexPath_not_post)
            show ?thesis
              unfolding postsWritten_append posts_eq po'(2) pw rest_eq w0 by simp
          qed
          also have "\<dots> = map ?g [0 ..< length ?ps]"
            using map_upt_split[OF k(2), of ?g] by simp
          finally show ?thesis .
        qed
        show ?thesis unfolding loopResult_def using e0 all_some out' ordall ipw psw by blast
      qed
      with run show ?thesis by blast
    qed
  qed
qed

lemma getElementById_find: "getElementById i ns = find (hasId i) (elements ns)"
proof -
  have "\<And>xs. (case filter (hasId i) xs of [] \<Rightarrow> None | n # _ \<Rightarrow> Some n) = find (hasId i) xs"
  proof -
    fix xs show "(case filter (hasId i) xs of [] \<Rightarrow> None | n # _ \<Rightarrow> Some n) = find (hasId i) xs"
      by (induction xs) auto
  qed
  then show ?thesis by (simp add: getElementById_def)
qed













lemma set_postsWritten: "set (postsWritten es) \<subseteq> set es"
  by (induction es rule: postsWritten.induct) auto

lemma blogIndex_spec:
  assumes p: "0 < postsPerPage E"
  shows "\<exists>r. blogIndex E s = Some r \<and>
           (\<forall>s'. r = Ok () s' \<longrightarrow>
              (\<exists>s1. blogPages s1 = sortPages (blogPages s) \<and> out s1 = out s @ [Enter ''blogIndex''] \<and>
                 loopResult (sortPages (blogPages s)) (length (blogPages s)) (postsPerPage E) 1 0 s1 s'))"
proof -
  let ?s1 = "(emit (Enter ''blogIndex'') s)\<lparr>blogPages := sortPages (blogPages s)\<rparr>"
  have run: "blogIndex E s = blogIndexLoop E (sortPages (blogPages s)) (length (blogPages s))
       (ceilDiv (length (blogPages s)) (postsPerPage E)) 1 0 ?s1"
    by (simp add: blogIndex_def Let_def emit_def length_sortPages)
  from blogIndexLoop_spec[OF p, of "sortPages (blogPages s)" "length (blogPages s)"
       "ceilDiv (length (blogPages s)) (postsPerPage E)" 1 0 ?s1]
  obtain r where r: "blogIndexLoop E (sortPages (blogPages s)) (length (blogPages s))
       (ceilDiv (length (blogPages s)) (postsPerPage E)) 1 0 ?s1 = Some r"
    and spec: "\<forall>s'. r = Ok () s' \<longrightarrow>
        loopResult (sortPages (blogPages s)) (length (blogPages s)) (postsPerPage E) 1 0 ?s1 s'"
    by blast
  have "blogPages ?s1 = sortPages (blogPages s)" "out ?s1 = out s @ [Enter ''blogIndex'']"
    by (simp_all add: emit_def)
  with r spec run show ?thesis by metis
qed

section \<open>Facts about the walk of the directories\<close>

lemma transformPage_events:
  "\<exists>evs. out (stateOf (transformPage E c s)) = out s @ evs \<and> list_all ordinary evs \<and>
         blogPages (stateOf (transformPage E c s)) = blogPages s"
  by (auto simp: transformPage_def Let_def emit_def split: option.splits prod.splits)


lemma blogIndex_events:
  assumes p: "0 < postsPerPage E"
  shows "\<exists>r. blogIndex E s = Some r \<and>
           (\<forall>s'. r = Ok () s' \<longrightarrow>
              (\<exists>evs. out s' = out s @ Enter ''blogIndex'' # evs \<and> list_all ordinary evs) \<and>
              blogPages s' = [])"
proof -
  from blogIndex_spec[OF p, of s] obtain r where r: "blogIndex E s = Some r"
    and spec: "\<forall>s'. r = Ok () s' \<longrightarrow>
              (\<exists>s1. blogPages s1 = sortPages (blogPages s) \<and> out s1 = out s @ [Enter ''blogIndex''] \<and>
                 loopResult (sortPages (blogPages s)) (length (blogPages s)) (postsPerPage E) 1 0 s1 s')"
    by blast
  have "(\<exists>evs. out s' = out s @ Enter ''blogIndex'' # evs \<and> list_all ordinary evs) \<and> blogPages s' = []"
    if "r = Ok () s'" for s'
  proof -
    from spec that obtain s1 where o1: "out s1 = out s @ [Enter ''blogIndex'']"
      and lr: "loopResult (sortPages (blogPages s)) (length (blogPages s)) (postsPerPage E) 1 0 s1 s'"
      by blast
    from lr obtain evs where "out s' = out s1 @ evs" "list_all ordinary evs" "blogPages s' = []"
      unfolding loopResult_def by blast
    then show ?thesis using o1 by auto
  qed
  with r show ?thesis by blast
qed



lemma processPage_blogPages:
  assumes "processPage E path c s = Ok () s'"
  shows "pageNames (blogPages s') = pageNames (blogPages s) @ (if collects (path, c) then [pageNameOf path] else [])"
proof (cases "publish (attributes c) = Some ''no''")
  case True
  then show ?thesis using assms by (auto simp: processPage_def collects_def)
next
  case False
  from assms False obtain d s1 where t: "transformPage E c s = Ok d s1"
    by (auto simp: processPage_def split: outcome.splits)
  have b: "blogPages s1 = blogPages s"
    using transformPage_events[of E c s] t by auto
  show ?thesis
    using assms False t b
    by (auto simp: processPage_def collects_def pageNames_def emit_def split: if_splits option.splits)
qed

lemma promiseAll_blogPages:
  "promiseAll E tasks s = Ok () s' \<Longrightarrow>
   pageNames (blogPages s') = pageNames (blogPages s) @ map (\<lambda>t. pageNameOf (fst t)) (filter collects tasks)"
proof (induction tasks arbitrary: s)
  case Nil
  then show ?case by simp
next
  case (Cons t tasks)
  obtain path c where t: "t = (path, c)" by (cases t)
  from Cons.prems t obtain s1 where p1: "processPage E path c s = Ok () s1"
    and rest: "promiseAll E tasks s1 = Ok () s'"
    by (auto split: outcome.splits)
  from processPage_blogPages[OF p1] Cons.IH[OF rest] show ?case
    using t by simp
qed




















lemma marker_simps [simp]: "marker (Joined d)" "marker (Enter f)" "marker cname"
  by (simp_all add: marker_def cname_def)













text \<open>When no transform completes at its \<open>await\<close>s, it is \<open>blogIndex\<close> as defined before.\<close>

lemma wait_none: "wait E ([], running) s = (([], running), s)"
  by (simp add: wait_def nextPicks_def)


lemma forPagesDuring_none:
  "forPagesDuring E orig tot batch agg i ([], running) s = (([], running), forPages orig tot batch agg i s)"
  by (induction batch arbitrary: agg i s) (auto simp: wait_none split: option.splits)

lemma indexPageDuring_none:
  "indexPageDuring E orig tot ti pc i ([], running) s = (([], running), indexPage E orig tot ti pc i s)"
  by (auto simp: indexPageDuring_def indexPage_def wait_none forPagesDuring_none Let_def
           split: option.splits outcome.splits prod.splits)

lemma blogIndexLoopDuring_none:
  assumes p: "0 < postsPerPage E"
  shows "blogIndexLoopDuring E orig tot ti pc i ([], running) s
         = map_option (Pair ([], running)) (blogIndexLoop E orig tot ti pc i s)"
proof (induction "length (blogPages s)" arbitrary: s pc i rule: less_induct)
  case less
  show ?case
  proof (cases "blogPages s = []")
    case True
    then show ?thesis
      by (subst blogIndexLoopDuring.simps) (simp add: blogIndexLoop_Nil)
  next
    case False
    show ?thesis
    proof (cases "indexPage E orig tot ti pc i s")
      case (Threw e s')
      then show ?thesis using False
        by (subst blogIndexLoopDuring.simps) (simp add: blogIndexLoop_step indexPageDuring_none)
    next
      case (Ok i' s')
      from indexPage_spec[OF Ok] have "blogPages s' = drop (postsPerPage E) (blogPages s)" by simp
      with False p have "length (blogPages s') < length (blogPages s)" by (cases "blogPages s") auto
      from less[OF this] Ok False show ?thesis
        by (subst blogIndexLoopDuring.simps) (simp add: blogIndexLoop_step indexPageDuring_none)
    qed
  qed
qed

lemma blogIndexDuring_none:
  "0 < postsPerPage E \<Longrightarrow> blogIndexDuring E ([], running) s = map_option (Pair ([], running)) (blogIndex E s)"
  by (simp add: blogIndexDuring_def blogIndex_def Let_def blogIndexLoopDuring_none)








lemma blogIndexLoopDuring_Nil:
  "blogPages s = [] \<Longrightarrow> blogIndexLoopDuring E orig tot ti pc i w s = Some (w, Ok () s)"
  by (subst blogIndexLoopDuring.simps) simp

lemma blogIndexLoopDuring_step:
  "blogPages s \<noteq> [] \<Longrightarrow> blogIndexLoopDuring E orig tot ti pc i w s =
     (case indexPageDuring E orig tot ti pc i w s of
        (w', Threw e s') \<Rightarrow> Some (w', Threw e s')
      | (w', Ok i' s') \<Rightarrow> blogIndexLoopDuring E orig tot ti (pc + 1) i' w' s')"
  by (subst blogIndexLoopDuring.simps) simp









text \<open>
  When the transforms of the array are the only ones pending, the join of the walk is the
  join of line 84 by itself.
\<close>

lemma firstRejected_own: "firstRejected dir (map (own dir) tasks @ rest) = firstRejected dir rest"
  by (induction tasks) (auto simp: own_def)

lemma pending_own: "filter isPending (map (own dir) tasks) = map (own dir) tasks"
  by (induction tasks) (auto simp: own_def)

lemma remaining_alone: "snd (remaining E dir (map (own dir) tasks) s) = promiseAll E tasks s"
proof (induction tasks arbitrary: s)
  case Nil
  then show ?case by simp
next
  case (Cons t tasks)
  obtain pagePath c where t: "t = (pagePath, c)" by (cases t)
  show ?case using Cons.IH unfolding t by (cases "processPage E pagePath c s") (auto simp: own_def)
qed

lemma settle_alone:
  "j < length tasks \<Longrightarrow>
   settle E j (map (own dir) tasks) s =
     (case processPage E (fst (tasks ! j)) (snd (tasks ! j)) s of
        Ok u s' \<Rightarrow> (map (own dir) (take j tasks @ drop (Suc j) tasks), s')
      | Threw e s' \<Rightarrow> (map (own dir) (take j tasks) @ (dir, Rejected e) # map (own dir) (drop (Suc j) tasks), s'))"
proof (induction tasks arbitrary: j)
  case Nil
  then show ?case by simp
next
  case (Cons t tasks)
  obtain pagePath c where t: "t = (pagePath, c)" by (cases t)
  show ?case
  proof (cases j)
    case 0
    then show ?thesis unfolding t by (auto simp: own_def split: outcome.splits)
  next
    case (Suc k)
    then have "k < length tasks" using Cons.prems by simp
    from Cons.IH[OF this] show ?thesis unfolding t Suc
      by (auto simp: own_def split: outcome.splits)
  qed
qed

lemma awaitPromiseAll_rejected:
  "snd (awaitPromiseAll E dir picks (map (own dir) tasks @ (dir, Rejected e) # rest) s) = Threw e s"
  by (cases picks) (simp_all add: firstRejected_own)

lemma awaitPromiseAll_alone:
  "snd (awaitPromiseAll E dir picks (map (own dir) tasks) s) = promiseAll E (completionOrder picks tasks) s"
proof (induction picks arbitrary: tasks s)
  case Nil
  have "firstRejected dir (map (own dir) tasks) = None"
    using firstRejected_own[of dir tasks "[]"] by simp
  then show ?case using remaining_alone[of E dir tasks s] by (cases tasks) simp_all
next
  case (Cons i picks)
  have none: "firstRejected dir (map (own dir) tasks) = None"
    using firstRejected_own[of dir tasks "[]"] by simp
  show ?case
  proof (cases tasks)
    case Nil
    then show ?thesis using Cons.IH[of "[]" s] by simp
  next
    case (Cons t ts)
    let ?j = "i mod length tasks"
    have j: "?j < length tasks" using Cons by simp
    obtain pagePath c where tj: "tasks ! ?j = (pagePath, c)" by (cases "tasks ! ?j")
    have order: "completionOrder (i # picks) tasks
        = (pagePath, c) # completionOrder picks (take ?j tasks @ drop (Suc ?j) tasks)"
      using Cons tj by (simp add: Let_def)
    show ?thesis
    proof (cases "processPage E pagePath c s")
      case (Ok u s1)
      then have "settle E ?j (map (own dir) tasks) s = (map (own dir) (take ?j tasks @ drop (Suc ?j) tasks), s1)"
        using settle_alone[OF j, of E dir s] tj by simp
      then have a: "awaitPromiseAll E dir (i # picks) (map (own dir) tasks) s
          = awaitPromiseAll E dir picks (map (own dir) (take ?j tasks @ drop (Suc ?j) tasks)) s1"
        using none by (simp add: pending_own del: map_append)
      have b: "promiseAll E (completionOrder (i # picks) tasks) s
          = promiseAll E (completionOrder picks (take ?j tasks @ drop (Suc ?j) tasks)) s1"
        unfolding order using Ok by simp
      show ?thesis unfolding a b by (rule Cons.IH)
    next
      case (Threw e s1)
      then have "settle E ?j (map (own dir) tasks) s
          = (map (own dir) (take ?j tasks) @ (dir, Rejected e) # map (own dir) (drop (Suc ?j) tasks), s1)"
        using settle_alone[OF j, of E dir s] tj by simp
      then have a: "awaitPromiseAll E dir (i # picks) (map (own dir) tasks) s
          = awaitPromiseAll E dir picks
                   (map (own dir) (take ?j tasks) @ (dir, Rejected e) # map (own dir) (drop (Suc ?j) tasks)) s1"
        using none by (simp add: pending_own del: map_append)
      have b: "promiseAll E (completionOrder (i # picks) tasks) s = Threw e s1"
        unfolding order using Threw by simp
      show ?thesis unfolding a b by (rule awaitPromiseAll_rejected)
    qed
  qed
qed

section \<open>Facts about the comment thread and the missing insertion point\<close>

lemma getElementById_None_iff: "getElementById i ns = None \<longleftrightarrow> modifyFirst (hasId i) f ns = None"
  by (auto simp: getElementById_find find_None_iff modifyFirst_None_iff)

lemma renderComments_append:
  "renderComments cc (xs @ ys) l = Option.bind (renderComments cc xs l) (renderComments cc ys)"
  by (induction xs arbitrary: l) (auto split: option.splits)

lemma renderComment_dangling:
  assumes "truthyString (replying_to_uid c)"
    and "getElementById (''comment-'' @ the (replying_to_uid c)) commentList = None"
  shows "renderComment cc c commentList = None"
proof -
  have "modifyFirst (hasId (''comment-'' @ the (replying_to_uid c))) f commentList = None" for f
    using assms(2) getElementById_None_iff by blast
  then show ?thesis
    using assms(1) by (simp add: renderComment_def bind_eq_None_conv)
qed

lemma missing_insertion_point_without_date:
  assumes pub: "publish (attributes c) \<noteq> Some ''no''"
    and tmpl: "templateFiles E (templatePathOf (attributes c)) = Some tmpl"
    and head: "componentHead E = Some head"
    and ns1: "modifyFirst (hasTag ''head'') (\<lambda>h rest. setInnerHTML head h # rest) (nodes tmpl) = Some ns1"
    and nopc: "getElementById ''page-content'' ns1 = None"
    and undated: "\<not> truthyNumber (date (attributes c))"
    and html: "getElementsByTagName ''html'' ns1 = h # hs"
    and dt: "doctype tmpl = Some dn"
    and target: "targetPathOf pagePath \<noteq> ''blog''"
  shows "processPage E pagePath c s =
           Ok () (emit (WriteFile (outputPath pagePath) (Html dn h))
                    (emit (ConsoleLog (missingContentMessage (templatePathOf (attributes c)))) s))"
proof -
  have none: "modifyFirst (hasId ''page-content'') (\<lambda>e rest. setInnerHTML (body c) e # rest) ns1 = None"
    using nopc getElementById_None_iff by blast
  have t: "transformPage E c s =
      Ok (setTitle (attributes c) (tmpl\<lparr>nodes := ns1\<rparr>))
         (emit (ConsoleLog (missingContentMessage (templatePathOf (attributes c)))) s)"
    using tmpl head ns1 none undated html by (simp add: transformPage_def Let_def)
  have f: "finalHtml (setTitle (attributes c) (tmpl\<lparr>nodes := ns1\<rparr>)) = Some (Html dn h)"
    using dt html by (simp add: finalHtml_def setTitle_def split: option.splits)
  show ?thesis
    using pub t f target by (simp add: processPage_def)
qed

section \<open>Evaluation of the model on concrete inputs\<close>

lemmas string_eval = toString_digit toString_ge10 digitChar_def calendar_def dateString_def
  slice_def sliceFrom_def parseInt_def isDigit_def digitVal_def monthName_def

lemmas dom_eval = hasTag_def hasId_def hasClass_def getElementsByTagName_def
  getElementsByClassName_def getElementById_def elements_def descendants.simps

lemmas page_eval = processPage_def transformPage_def templatePathOf_def truthyString_def
  truthyNumber_def insertDate_def dateSpan_def setTitle_def pageTitle_def emit_def finalHtml_def
  outputPath_def pagePathParts_def pageNameOf_def targetPathOf_def missingContentMessage_def
  Let_def

lemmas example_eval = exampleEnv_def exampleTemplate_def plainTemplate_def emptyState_def
  noFrontmatter_def datedPost_def draftPage_def datedNote_def datedArticle_def

lemmas index_eval = blogIndex_def blogIndexLoop_Nil blogIndexLoop_step indexPage_def blogPost_def
  excerptOf_def postDocument_def removeReadMore_def isInside_def notElement_def newerButton_def
  olderButton_def appendToContent_def nameAt_def postPath_def postHref_def linkTo_def
  paginationEdits_def indexPath_def indexDocument_def ceilDiv_def sortPages_def compareFn_def

lemmas example_eval2 = collected_def threePosts_def blogPostOf_def blogIndexTemplate_def



lemmas walk_eval = processDirectory_def joinAndAggregate_def cname_def inOrder_def secondFirst_def
  atTheJoin_def duringTheBlog_def duringBlogIndex_def nextPicks_def wait_def
  indexPageDuring_def blogIndexDuring_def blogIndexLoopDuring_Nil blogIndexLoopDuring_step
  smallSite_def earlySite_def sameDaySite_def sameDayPosts_def brokenSite_def brokenPosts_def
  brokenPost_def nowPage_def aboutPage_def


lemma sibling_stays_pending:
  "joinAndAggregate exampleEnv atTheJoin inOrder ''pages/blog''
     (forEntries exampleEnv atTheJoin inOrder ''pages/blog'' brokenPosts [] [] emptyState) =
   Some ([(''pages/blog'', Rejected (ENOENT ''templates/missing.html'')),
          (''pages/blog'', Pending ''pages/blog/b.md'' (blogPostOf ''B'' 20230101))],
         Threw (ENOENT ''templates/missing.html'') emptyState)"
  by (simp add: walk_eval example_eval example_eval2 page_eval dom_eval string_eval)


text \<open>
  A page listed before the blog is written during \<open>blogIndex\<close> of the blog, between the
  post and the index page, when its transform completes at the \<open>await\<close> of line 223.
\<close>

lemma run_duringBlogIndex:
  "trace (processDirectory exampleEnv duringBlogIndex inOrder ''pages'' earlySite emptyState) =
     [''joined pages/blog'', ''enter blogIndex'', ''write public/blog/a.html'',
      ''write public//about.html'', ''write public/index.html'', ''write public/CNAME'',
      ''joined pages'', ''enter blogIndex'', ''write public/CNAME'', ''return'']"
  by (simp add: walk_eval index_eval example_eval example_eval2 page_eval dom_eval string_eval)

lemma run_sameDayPosts:
  "promiseAll exampleEnv (completionOrder (secondFirst ''pages/blog'') (started ''pages/blog'' sameDayPosts))
      emptyState =
     Ok () \<lparr>blogPages = [collected ''b'' ''B'' 20230101, collected ''a'' ''A'' 20230101], out = []\<rparr>"
  by (simp add: walk_eval example_eval example_eval2 page_eval dom_eval string_eval)

lemmas comment_eval = commentsSection_def renderComment_def articleAttributes_def replyOnclick_def
  quoted_def componentCommentExample_def firstComment_def replyToFirst_def replyToNobody_def
  postWithComments_def truthyString_def

text \<open>A reply listed after its parent is placed right behind it.\<close>

lemma reply_after_parent:
  "commentsSection componentCommentExample [firstComment, replyToFirst] postWithComments =
     Inr [Element ''html'' []
        [Element ''body'' []
           [Element ''div'' [(''id'', ''page-content'')]
              [Element ''div'' [(''id'', ''post-section'')] [],
               Element ''div'' [(''id'', ''comments-section'')]
                 [Element ''div'' [(''id'', ''comment-list'')]
                    [Element ''h2'' [] [Text ''Comments''],
                     Element ''article'' (articleAttributes firstComment ''comment-article'')
                       [Element ''span'' [(''class'', ''comment-author'')] [Text ''Ann''],
                        Element ''a'' [(''class'', ''comment-link''), (''href'', ''#comment-c1'')]
                          [Text '' - January 7, 2023 at 9:15 AM''],
                        Element ''div'' [(''class'', ''comment-text'')] [Element ''p'' [] [Text ''Nice post'']],
                        Element ''a'' [(''class'', ''comment-reply-link''), (''onclick'', replyOnclick firstComment)]
                          [Text ''[ Reply to Ann ]'']],
                     Element ''article'' (articleAttributes replyToFirst ''comment-article nested'')
                       [Element ''span'' [(''class'', ''comment-author'')] [Text ''Bob''],
                        Element ''a'' [(''class'', ''comment-link''), (''href'', ''#comment-c2'')]
                          [Text '' - January 8, 2023 at 10:00 AM''],
                        Element ''div'' [(''class'', ''comment-text'')] [Element ''p'' [] [Text ''Agreed'']]]]]]]]]"
  by (simp add: comment_eval dom_eval)

section \<open>The page transform\<close>



text \<open>
  Claim C6. A content file whose front matter sets \<open>publish\<close> to \<open>no\<close> leaves the build
  state as it was: nothing is written, nothing is logged and \<open>blogPages\<close> does not grow.
\<close>

theorem unpublished_page_is_skipped:
  assumes "publish (attributes c) = Some ''no''"
  shows "processPage E pagePath c s = Ok () s"
  using assms by (simp add: processPage_def)

theorem unpublished_page_is_skipped_witness:
  "publish (attributes draftPage) = Some ''no'' \<and>
   processPage exampleEnv ''pages/blog/draft.md'' draftPage emptyState = Ok () emptyState"
proof -
  have h: "publish (attributes draftPage) = Some ''no''"
    by (simp add: example_eval)
  from unpublished_page_is_skipped[OF h] h show ?thesis
    by simp
qed

text \<open>
  Claim C10. A published page with a date whose document has no h2 (none in the template,
  none in the head component, none rendered from the body) makes \<open>processPage\<close> throw a
  \<open>TypeError\<close> at line 142: no file is written and \<open>blogPages\<close> does not grow; at most the
  warning about a missing insertion point has been logged before.
\<close>

theorem date_without_h2_throws:
  assumes pub: "publish (attributes c) \<noteq> Some ''no''"
    and tmpl: "templateFiles E (templatePathOf (attributes c)) = Some tmpl"
    and head: "componentHead E = Some head"
    and hashead: "getElementsByTagName ''head'' (nodes tmpl) \<noteq> []"
    and dated: "truthyNumber (date (attributes c))"
    and noh2: "getElementsByTagName ''h2'' (nodes tmpl) = []"
              "getElementsByTagName ''h2'' head = []"
              "getElementsByTagName ''h2'' (body c) = []"
  shows "\<exists>s'. processPage E pagePath c s = Threw TypeError s' \<and> blogPages s' = blogPages s \<and>
           (out s' = out s \<or>
            out s' = out s @ [ConsoleLog (missingContentMessage (templatePathOf (attributes c)))])"
proof -
  obtain ns1 where ns1: "modifyFirst (hasTag ''head'') (\<lambda>h rest. setInnerHTML head h # rest) (nodes tmpl) = Some ns1"
    using modifyFirst_Some_if[OF hashead] by blast
  have h1: "getElementsByTagName ''h2'' ns1 = []"
    using setInnerHTML_keeps_tag_absent[OF ns1 noh2(1,2)] .
  show ?thesis
  proof (cases "modifyFirst (hasId ''page-content'') (\<lambda>e rest. setInnerHTML (body c) e # rest) ns1")
    case None
    have "insertDate (the (date (attributes c))) ns1 = None"
      using h1 by (rule insertDate_None)
    then show ?thesis
      using pub tmpl head ns1 None dated
      by (simp add: processPage_def transformPage_def Let_def emit_def)
  next
    case (Some ns2)
    have "getElementsByTagName ''h2'' ns2 = []"
      using setInnerHTML_keeps_tag_absent[OF Some h1 noh2(3)] .
    then have "insertDate (the (date (attributes c))) ns2 = None"
      by (rule insertDate_None)
    then show ?thesis
      using pub tmpl head ns1 Some dated
      by (simp add: processPage_def transformPage_def Let_def)
  qed
qed

theorem date_without_h2_throws_witness:
  "processPage exampleEnv ''pages/notes/today.md'' datedNote emptyState =
     Threw TypeError
       \<lparr>blogPages = [],
        out = [ConsoleLog (missingContentMessage ''templates/plain.html'')]\<rparr>"
proof -
  have pub: "publish (attributes datedNote) \<noteq> Some ''no''"
    by (simp add: example_eval)
  have tmpl: "templateFiles exampleEnv (templatePathOf (attributes datedNote)) = Some plainTemplate"
    by (simp add: example_eval page_eval)
  have head: "componentHead exampleEnv = Some [Element ''meta'' [(''charset'', ''utf-8'')] []]"
    by (simp add: example_eval)
  have hashead: "getElementsByTagName ''head'' (nodes plainTemplate) \<noteq> []"
    by (simp add: example_eval dom_eval)
  have dated: "truthyNumber (date (attributes datedNote))"
    by (simp add: example_eval page_eval)
  have noh2: "getElementsByTagName ''h2'' (nodes plainTemplate) = []"
    "getElementsByTagName ''h2'' [Element ''meta'' [(''charset'', ''utf-8'')] []] = []"
    "getElementsByTagName ''h2'' (body datedNote) = []"
    by (simp_all add: example_eval dom_eval)
  from date_without_h2_throws[OF pub tmpl head hashead dated noh2,
      of "''pages/notes/today.md''" emptyState]
  obtain s' where "processPage exampleEnv ''pages/notes/today.md'' datedNote emptyState = Threw TypeError s'"
    by blast
  then show ?thesis
    by (simp add: page_eval example_eval dom_eval string_eval)
qed


section \<open>The aggregation\<close>







section \<open>The walk of the directories\<close>




text \<open>
  Claim C3, as amended. When the transforms of a directory have all completed, \<open>blogPages\<close>
  has grown by the collected pages in the order in which their transforms completed. For
  pages that all have a date, the sort of line 177 returns a permutation in descending
  order of the dates in which pages of the same date keep the order they had in
  \<open>blogPages\<close>, that is, the order of completion.
\<close>

theorem sort_keeps_completion_order:
  assumes run: "promiseAll E (completionOrder picks tasks) s = Ok () s'"
    and dates: "\<forall>p \<in> set (blogPages s'). dated p"
  shows "pageNames (blogPages s') =
           pageNames (blogPages s) @ map (\<lambda>t. pageNameOf (fst t)) (filter collects (completionOrder picks tasks)) \<and>
         mset (sortPages (blogPages s')) = mset (blogPages s') \<and>
         sorted_wrt (\<lambda>x y. pageDate y \<le> pageDate x) (sortPages (blogPages s')) \<and>
         (\<forall>d. filter (\<lambda>p. pageDate p = d) (sortPages (blogPages s'))
               = filter (\<lambda>p. pageDate p = d) (blogPages s'))"
  using promiseAll_blogPages[OF run] mset_sortPages sorted_sortPages[OF dates] stable_sortPages[OF dates]
  by blast

theorem sort_keeps_completion_order_witness:
  "promiseAll exampleEnv (completionOrder (secondFirst ''pages/blog'') (started ''pages/blog'' sameDayPosts))
      emptyState =
     Ok () \<lparr>blogPages = [collected ''b'' ''B'' 20230101, collected ''a'' ''A'' 20230101], out = []\<rparr> \<and>
   sortPages [collected ''b'' ''B'' 20230101, collected ''a'' ''A'' 20230101] =
     [collected ''b'' ''B'' 20230101, collected ''a'' ''A'' 20230101]"
proof -
  let ?s' = "\<lparr>blogPages = [collected ''b'' ''B'' 20230101, collected ''a'' ''A'' 20230101], out = []\<rparr>"
  have dates: "\<forall>p \<in> set (blogPages ?s'). dated p"
    by (simp add: dated_def collected_def blogPostOf_def noFrontmatter_def)
  from sort_keeps_completion_order[OF run_sameDayPosts dates]
  have "\<forall>d. filter (\<lambda>p. pageDate p = d) (sortPages (blogPages ?s')) = filter (\<lambda>p. pageDate p = d) (blogPages ?s')"
    by blast
  then have "filter (\<lambda>p. pageDate p = 20230101) (sortPages (blogPages ?s'))
      = filter (\<lambda>p. pageDate p = 20230101) (blogPages ?s')"
    by blast
  moreover have "\<forall>p \<in> set (sortPages (blogPages ?s')). pageDate p = 20230101"
    by (simp add: set_sortPages) (simp add: pageDate_def collected_def blogPostOf_def noFrontmatter_def)
  moreover have "\<forall>p \<in> set (blogPages ?s'). pageDate p = 20230101"
    by (simp add: pageDate_def collected_def blogPostOf_def noFrontmatter_def)
  ultimately have "sortPages (blogPages ?s') = blogPages ?s'"
    by (simp add: filter_True del: state.simps)
  with run_sameDayPosts show ?thesis by simp
qed

text \<open>
  The claim as it is written fails: two pages of the same date, listed as \<open>a\<close> and \<open>b\<close>, stand
  after the sort in the order \<open>b\<close>, \<open>a\<close> when the transform of \<open>b\<close> completes first, and in the
  order \<open>a\<close>, \<open>b\<close> when the transforms complete in the order of their start.
\<close>

theorem sort_order_depends_on_completion:
  "pageNames (sortPages (blogPages (stateOf (promiseAll exampleEnv
      (completionOrder (secondFirst ''pages/blog'') (started ''pages/blog'' sameDayPosts)) emptyState))))
     = [''b'', ''a''] \<and>
   pageNames (sortPages (blogPages (stateOf (promiseAll exampleEnv
      (completionOrder (inOrder ''pages/blog'') (started ''pages/blog'' sameDayPosts)) emptyState))))
     = [''a'', ''b'']"
  by (simp add: walk_eval index_eval example_eval example_eval2 page_eval dom_eval string_eval pageNames_def)




section \<open>The missing insertion point\<close>

text \<open>
  Claim C8. The claim fails on the code for the page below: its template has no element
  \<open>page-content\<close> and no h2, the page has a date and its body starts with a heading. The
  warning of line 125 is logged, the body with its heading is left out, and line 142 then
  finds no h2: the transform throws and the page is not written.
\<close>

theorem missing_insertion_point_dated_page_throws:
  "processPage exampleEnv ''pages/articles/one.md'' datedArticle emptyState =
     Threw TypeError
       \<lparr>blogPages = [],
        out = [ConsoleLog (missingContentMessage ''templates/plain.html'')]\<rparr>"
  by (simp add: page_eval example_eval dom_eval string_eval)

section \<open>The comment thread\<close>

text \<open>
  Claim C9, as amended. When the comments listed before a reply have been rendered and no
  element of the list built so far has the id \<open>comment-<replying_to_uid>\<close>, the rendering of
  the comment section throws a \<open>TypeError\<close>, whatever comments follow: there is no comment
  list and no dangling node.
\<close>

theorem reply_without_parent_throws:
  assumes before: "renderComments componentComment before [Element ''h2'' [] [Text ''Comments'']] = Some commentList"
    and reply: "truthyString (replying_to_uid c)"
    and dangling: "getElementById (''comment-'' @ the (replying_to_uid c)) commentList = None"
  shows "commentsSection componentComment (before @ c # after) post = Inl TypeError"
proof -
  have "renderComment componentComment c commentList = None"
    using reply dangling by (rule renderComment_dangling)
  then have "renderComments componentComment (before @ c # after) [Element ''h2'' [] [Text ''Comments'']] = None"
    using before by (simp add: renderComments_append)
  then show ?thesis by (simp add: commentsSection_def)
qed
theorem reply_without_parent_throws_witness:
  "commentsSection componentCommentExample ([] @ replyToFirst # [firstComment]) postWithComments
     = Inl TypeError"
proof -
  have before: "renderComments componentCommentExample [] [Element ''h2'' [] [Text ''Comments'']]
      = Some [Element ''h2'' [] [Text ''Comments'']]"
    by simp
  have reply: "truthyString (replying_to_uid replyToFirst)"
    by (simp add: replyToFirst_def truthyString_def)
  have dangling: "getElementById (''comment-'' @ the (replying_to_uid replyToFirst))
      [Element ''h2'' [] [Text ''Comments'']] = None"
    by (simp add: replyToFirst_def dom_eval)
  from reply_without_parent_throws[OF before reply dangling, of "[firstComment]" postWithComments]
  show ?thesis .
qed

text \<open>
  The claim as it is written fails: a reply to a comment that does not exist makes the
  rendering of the section throw.
\<close>

theorem reply_to_missing_comment_throws:
  "commentsSection componentCommentExample [firstComment, replyToNobody] postWithComments
     = Inl TypeError"
  by (simp add: comment_eval dom_eval)
end
